theory Spec2Isabelle
  imports Main
begin

section \<open>The authentication switcher of src/auth/AuthSwitcher.js\<close>

text \<open>
  The class \<^verbatim>\<open>AuthSwitcher\<close> rotates between accounts. Its own fields are two counters
  and a busy flag; the list of usable accounts belongs to \<^verbatim>\<open>authSource\<close>, the policy to
  \<^verbatim>\<open>config\<close>, and the index of the active account to \<^verbatim>\<open>browserManager\<close>. Account
  indices, status codes and counters are JavaScript numbers holding integers and are
  modelled as \<open>int\<close>. The value \<open>0\<close> of \<^verbatim>\<open>currentAuthIndex\<close> is what the code writes when
  no account is active (line 174, and the comment at line 106).
\<close>

subsection \<open>Data\<close>

record Config =
  failureThreshold :: int
  immediateSwitchStatusCodes :: "int list"
  switchOnUses :: int

record AuthSource =
  availableIndices :: "int list"

text \<open>
  The browser manager is a collaborator whose code is outside this file. The switcher
  reads and writes its \<^verbatim>\<open>currentAuthIndex\<close>; everything else it holds is the opaque
  field \<open>session\<close>.
\<close>

record 'b BrowserManager =
  bmCurrentAuthIndex :: int
  session :: 'b

text \<open>
  The two asynchronous methods of the browser manager that the switcher awaits. Each
  either resolves or rejects with an \<^verbatim>\<open>Error\<close>, modelled by its message, and each may
  change the browser manager in any way. They are parameters of the model. They have no
  access to the switcher's counters and flag, to the configuration or to the list of
  accounts, and the model runs one operation at a time: what another operation does
  while a call is pending is not modelled.
\<close>

record 'b BrowserOps =
  launchOrSwitchContext :: "int \<Rightarrow> 'b BrowserManager \<Rightarrow> (string + unit) \<times> 'b BrowserManager"
  switchAccount :: "int \<Rightarrow> 'b BrowserManager \<Rightarrow> (string + unit) \<times> 'b BrowserManager"

datatype activation = LaunchOrSwitchContext int | SwitchAccount int

text \<open>
  One awaited call of a browser-manager method, as an observer of the collaborator
  records it: which method with which account, the value of \<^verbatim>\<open>isSystemBusy\<close> while the
  call was pending, and whether it resolved.
\<close>

record Attempt =
  request :: activation
  whileBusy :: bool
  resolved :: bool

text \<open>
  The switcher. The field \<open>attempts\<close> is not a field of the class: it is the history of
  the awaited browser-manager calls, kept so that the order of the attempts can be
  stated. The logger is not modelled; its lines do not influence any result.
\<close>

record 'b AuthSwitcher =
  config :: Config
  authSource :: AuthSource
  browserManager :: "'b BrowserManager"
  failureCount :: int
  usageCount :: int
  isSystemBusy :: bool
  attempts :: "Attempt list"

text \<open>The object a switch operation returns; absent properties are \<open>None\<close>.\<close>

record SwitchResult =
  success :: bool
  newIndex :: "int option"
  failedAccounts :: "int list option"
  finalAttempt :: "bool option"
  reason :: "string option"

record ErrorDetails =
  status :: int

subsection \<open>JavaScript primitives\<close>

text \<open>\<^verbatim>\<open>Array.prototype.indexOf\<close>: the first position of the value, or \<open>-1\<close>.\<close>

primrec indexOf :: "int list \<Rightarrow> int \<Rightarrow> int" where
  "indexOf [] v = - 1"
| "indexOf (x # xs) v =
     (if x = v then 0
      else (let r = indexOf xs v in if r = - 1 then - 1 else r + 1))"

text \<open>\<^verbatim>\<open>String.prototype.includes\<close>: the argument occurs as a contiguous substring.\<close>

primrec isPrefixOf :: "string \<Rightarrow> string \<Rightarrow> bool" where
  "isPrefixOf [] t = True"
| "isPrefixOf (c # cs) t = (case t of [] \<Rightarrow> False | d # ds \<Rightarrow> c = d \<and> isPrefixOf cs ds)"

primrec includesStr :: "string \<Rightarrow> string \<Rightarrow> bool" where
  "includesStr [] sub = (sub = [])"
| "includesStr (c # cs) sub = (isPrefixOf sub (c # cs) \<or> includesStr cs sub)"

text \<open>The decimal rendering of a number inside a template literal.\<close>

definition digitChar :: "nat \<Rightarrow> char" where
  "digitChar d = ''0123456789'' ! d"

fun showNat :: "nat \<Rightarrow> string" where
  "showNat n = (if n < 10 then [digitChar n] else showNat (n div 10) @ [digitChar (n mod 10)])"

declare showNat.simps [simp del]

definition showInt :: "int \<Rightarrow> string" where
  "showInt i = (if i < 0 then CHR ''-'' # showNat (nat (- i)) else showNat (nat i))"

subsection \<open>Accessors and counters\<close>

definition currentAuthIndex :: "'b AuthSwitcher \<Rightarrow> int" where
  "currentAuthIndex s = bmCurrentAuthIndex (browserManager s)"

definition setCurrentAuthIndex :: "int \<Rightarrow> 'b AuthSwitcher \<Rightarrow> 'b AuthSwitcher" where
  "setCurrentAuthIndex v s = s\<lparr>browserManager := (browserManager s)\<lparr>bmCurrentAuthIndex := v\<rparr>\<rparr>"

definition resetCounters :: "'b AuthSwitcher \<Rightarrow> 'b AuthSwitcher" where
  "resetCounters s = s\<lparr>failureCount := 0, usageCount := 0\<rparr>"

definition incrementUsageCount :: "'b AuthSwitcher \<Rightarrow> int \<times> 'b AuthSwitcher" where
  "incrementUsageCount s = (usageCount s + 1, s\<lparr>usageCount := usageCount s + 1\<rparr>)"

definition shouldSwitchByUsage :: "'b AuthSwitcher \<Rightarrow> bool" where
  "shouldSwitchByUsage s =
     (switchOnUses (config s) > 0 \<and> usageCount s \<ge> switchOnUses (config s))"

subsection \<open>getNextAuthIndex\<close>

text \<open>
  Lines 32 to 47. \<open>None\<close> is the \<^verbatim>\<open>null\<close> returned for an empty list. The warning logged
  when the current index is not in the list is the method's only effect and is not
  modelled.
\<close>

definition getNextAuthIndex :: "'b AuthSwitcher \<Rightarrow> int option" where
  "getNextAuthIndex s =
     (let available = availableIndices (authSource s) in
      if length available = 0 then None
      else
        let currentIndexInArray = indexOf available (currentAuthIndex s) in
        if currentIndexInArray = - 1 then Some (available ! 0)
        else
          let nextIndexInArray = (currentIndexInArray + 1) mod int (length available)
          in Some (available ! nat nextIndexInArray))"

subsection \<open>Awaited calls of the browser manager\<close>

definition recordAttempt ::
  "activation \<Rightarrow> (string + unit) \<times> 'b BrowserManager \<Rightarrow> 'b AuthSwitcher
     \<Rightarrow> (string + unit) \<times> 'b AuthSwitcher" where
  "recordAttempt a out s =
     (fst out,
      s\<lparr>browserManager := snd out,
        attempts := attempts s @
          [\<lparr>request = a, whileBusy = isSystemBusy s, resolved = \<not> isl (fst out)\<rparr>]\<rparr>)"

definition callLaunchOrSwitchContext ::
  "'b BrowserOps \<Rightarrow> int \<Rightarrow> 'b AuthSwitcher \<Rightarrow> (string + unit) \<times> 'b AuthSwitcher" where
  "callLaunchOrSwitchContext ops i s =
     recordAttempt (LaunchOrSwitchContext i) (launchOrSwitchContext ops i (browserManager s)) s"

definition callSwitchAccount ::
  "'b BrowserOps \<Rightarrow> int \<Rightarrow> 'b AuthSwitcher \<Rightarrow> (string + unit) \<times> 'b AuthSwitcher" where
  "callSwitchAccount ops i s =
     recordAttempt (SwitchAccount i) (switchAccount ops i (browserManager s)) s"

subsection \<open>switchToNextAuth\<close>

definition skipResult :: SwitchResult where
  "skipResult =
     \<lparr>success = False, newIndex = None, failedAccounts = None, finalAttempt = None,
      reason = Some ''Switch already in progress.''\<rparr>"

definition noSourcesMessage :: string where
  "noSourcesMessage = ''No available authentication sources, cannot switch.''"

definition allAccountsFailedMessage :: "nat \<Rightarrow> string" where
  "allAccountsFailedMessage n =
     ''All '' @ showNat n @ '' available accounts failed to initialize (including final retry).''"

text \<open>Single account mode, lines 65 to 86: the error of a failed restart is rethrown as it is.\<close>

definition singleAccountRestart ::
  "'b BrowserOps \<Rightarrow> int \<Rightarrow> 'b AuthSwitcher \<Rightarrow> (string + SwitchResult) \<times> 'b AuthSwitcher" where
  "singleAccountRestart ops singleIndex s =
     (case callLaunchOrSwitchContext ops singleIndex s of
        (Inr u, s') \<Rightarrow>
          (Inr \<lparr>success = True, newIndex = Some singleIndex, failedAccounts = None,
                finalAttempt = None, reason = None\<rparr>,
           resetCounters s')
      | (Inl e, s') \<Rightarrow> (Inl e, s'))"

text \<open>
  The loop of lines 111 to 139, with \<open>limit\<close> standing for \<^verbatim>\<open>startOffset + tryCount\<close>. It
  returns the account that was switched to, if any, the accounts that failed, and the
  state.
\<close>

function tryAccounts ::
  "'b BrowserOps \<Rightarrow> int list \<Rightarrow> nat \<Rightarrow> nat \<Rightarrow> nat \<Rightarrow> int list \<Rightarrow> 'b AuthSwitcher
     \<Rightarrow> int option \<times> int list \<times> 'b AuthSwitcher" where
  "tryAccounts ops available startIndex limit i failed s =
     (if i < limit then
        (let tryIndex = (startIndex + i) mod length available;
             accountIndex = available ! tryIndex
         in case callSwitchAccount ops accountIndex s of
              (Inr u, s') \<Rightarrow> (Some accountIndex, failed, resetCounters s')
            | (Inl e, s') \<Rightarrow>
                tryAccounts ops available startIndex limit (i + 1) (failed @ [accountIndex]) s')
      else (None, failed, s))"
  by pat_completeness auto
termination
  by (relation "measure (\<lambda>(ops, available, startIndex, limit, i, failed, s). limit - i)") auto

declare tryAccounts.simps [simp del]

text \<open>
  Multi-account mode, lines 88 to 168. \<open>Inl failed\<close> means that control reaches line 170
  with \<^verbatim>\<open>failedAccounts\<close> equal to \<open>failed\<close>. The guard of line 143 tests the truthiness of
  \<^verbatim>\<open>originalStartAccount\<close>: \<^verbatim>\<open>null\<close> and the number \<open>0\<close> are falsy.
\<close>

definition multiAccountSwitch ::
  "'b BrowserOps \<Rightarrow> int list \<Rightarrow> 'b AuthSwitcher \<Rightarrow> (int list + SwitchResult) \<times> 'b AuthSwitcher" where
  "multiAccountSwitch ops available s =
     (let currentIndexInArray = indexOf available (currentAuthIndex s);
          hasCurrentAccount = (currentIndexInArray \<noteq> - 1);
          startIndex = (if hasCurrentAccount then nat currentIndexInArray else 0);
          originalStartAccount = (if hasCurrentAccount then Some (available ! startIndex) else None);
          startOffset = (if hasCurrentAccount then 1 else 0);
          tryCount = (if hasCurrentAccount then length available - 1 else length available)
      in case tryAccounts ops available startIndex (startOffset + tryCount) startOffset [] s of
           (Some accountIndex, failed, s') \<Rightarrow>
             (Inr \<lparr>success = True, newIndex = Some accountIndex, failedAccounts = Some failed,
                   finalAttempt = None, reason = None\<rparr>, s')
         | (None, failed, s') \<Rightarrow>
             (case originalStartAccount of
                None \<Rightarrow> (Inl failed, s')
              | Some original \<Rightarrow>
                  if hasCurrentAccount \<and> original \<noteq> 0 then
                    (case callSwitchAccount ops original s' of
                       (Inr u, s'') \<Rightarrow>
                         (Inr \<lparr>success = True, newIndex = Some original,
                               failedAccounts = Some failed, finalAttempt = Some True,
                               reason = None\<rparr>,
                          resetCounters s'')
                     | (Inl e, s'') \<Rightarrow> (Inl (failed @ [original]), s''))
                  else (Inl failed, s')))"

text \<open>
  Lines 49 to 179. The empty list is rejected before the busy flag is looked at, and
  outside the \<^verbatim>\<open>try\<close>; from line 61 on, the \<^verbatim>\<open>finally\<close> of line 176 clears the flag on
  every path.
\<close>

definition switchToNextAuth ::
  "'b BrowserOps \<Rightarrow> 'b AuthSwitcher \<Rightarrow> (string + SwitchResult) \<times> 'b AuthSwitcher" where
  "switchToNextAuth ops s =
     (let available = availableIndices (authSource s) in
      if length available = 0 then (Inl noSourcesMessage, s)
      else if isSystemBusy s then (Inr skipResult, s)
      else
        (case (if length available = 1
               then singleAccountRestart ops (available ! 0) (s\<lparr>isSystemBusy := True\<rparr>)
               else (case multiAccountSwitch ops available (s\<lparr>isSystemBusy := True\<rparr>) of
                       (Inr r, s') \<Rightarrow> (Inr r, s')
                     | (Inl failed, s') \<Rightarrow>
                         (Inl (allAccountsFailedMessage (length available)),
                          setCurrentAuthIndex 0 s'))) of
           (out, s2) \<Rightarrow> (out, s2\<lparr>isSystemBusy := False\<rparr>)))"

subsection \<open>switchToSpecificAuth\<close>

definition invalidTargetMessage :: "int \<Rightarrow> string" where
  "invalidTargetMessage targetIndex =
     ''Switch failed: Account #'' @ showInt targetIndex @ '' invalid or does not exist.''"

text \<open>Lines 181 to 206: the busy test comes first, the membership test second.\<close>

definition switchToSpecificAuth ::
  "'b BrowserOps \<Rightarrow> int \<Rightarrow> 'b AuthSwitcher \<Rightarrow> (string + SwitchResult) \<times> 'b AuthSwitcher" where
  "switchToSpecificAuth ops targetIndex s =
     (if isSystemBusy s then (Inr skipResult, s)
      else if targetIndex \<notin> set (availableIndices (authSource s)) then
        (Inr \<lparr>success = False, newIndex = None, failedAccounts = None, finalAttempt = None,
              reason = Some (invalidTargetMessage targetIndex)\<rparr>, s)
      else
        (case (case callSwitchAccount ops targetIndex (s\<lparr>isSystemBusy := True\<rparr>) of
                 (Inr u, s') \<Rightarrow>
                   (Inr \<lparr>success = True, newIndex = Some targetIndex, failedAccounts = None,
                         finalAttempt = None, reason = None\<rparr>,
                    resetCounters s')
               | (Inl e, s') \<Rightarrow> (Inl e, s')) of
           (out, s2) \<Rightarrow> (out, s2\<lparr>isSystemBusy := False\<rparr>)))"

subsection \<open>handleRequestFailureAndSwitch\<close>

text \<open>
  The messages handed to \<^verbatim>\<open>sendErrorCallback\<close>, one constructor for each template of
  lines 240 to 257, carrying the value the template interpolates.
\<close>

datatype Notification =
    SwitchSkipped string
  | FellBackTo int
  | UnknownSwitchingError string
  | OnlyOneAccountAvailable
  | SwitchAndFallbackFailed
  | AutomaticSwitchFailed int

text \<open>
  A value that reaches a \<^verbatim>\<open>catch\<close> block: \<open>Error m\<close> is an object whose \<^verbatim>\<open>message\<close> is the
  string \<open>m\<close>; \<open>NoStringMessage\<close> is any other thrown value (\<^verbatim>\<open>null\<close>, \<^verbatim>\<open>undefined\<close>, a
  thrown string or number, an object without a string \<^verbatim>\<open>message\<close>).
\<close>

datatype Thrown = Error string | NoStringMessage

text \<open>
  What can leave \<^verbatim>\<open>handleRequestFailureAndSwitch\<close> as an error: the \<^verbatim>\<open>TypeError\<close> the
  engine raises at lines 248 to 250 when \<^verbatim>\<open>error.message\<close> is read from \<^verbatim>\<open>null\<close> or
  \<^verbatim>\<open>undefined\<close>, or \<^verbatim>\<open>includes\<close> is called on a \<^verbatim>\<open>message\<close> that is not a string; or what
  the callback threw when called from the \<^verbatim>\<open>catch\<close> block (line 261).
\<close>

datatype Escape = TypeError | CallbackThrew Thrown

text \<open>
  The optional argument \<^verbatim>\<open>sendErrorCallback\<close>: \<open>None\<close> when it was not passed, otherwise
  a function that returns (\<open>None\<close>) or throws (\<open>Some v\<close>) for the message it is given. The
  guarded call \<^verbatim>\<open>if (sendErrorCallback) sendErrorCallback(m)\<close> yields the messages handed
  over and what was thrown.
\<close>

type_synonym Callback = "(Notification \<Rightarrow> Thrown option) option"

definition sendErrorCallback :: "Callback \<Rightarrow> Notification \<Rightarrow> Notification list \<times> Thrown option" where
  "sendErrorCallback callback n = (case callback of None \<Rightarrow> ([], None) | Some f \<Rightarrow> ([n], f n))"

definition reasonText :: "SwitchResult \<Rightarrow> string" where
  "reasonText r = (case reason r of Some t \<Rightarrow> t | None \<Rightarrow> ''undefined'')"

text \<open>
  The \<^verbatim>\<open>catch\<close> block, lines 247 to 262. Nothing guards it: for a value without a string
  message it throws before anything is changed or sent, and what the callback throws at
  line 261 leaves the method. The logger is taken not to throw.
\<close>

definition catchBlock ::
  "Callback \<Rightarrow> Thrown \<Rightarrow> 'b AuthSwitcher \<Rightarrow> (Escape + unit) \<times> Notification list \<times> 'b AuthSwitcher" where
  "catchBlock callback error s =
     (case error of
        NoStringMessage \<Rightarrow> (Inl TypeError, [], s)
      | Error message \<Rightarrow>
          (case (if includesStr message ''Only one account is available''
                 then (OnlyOneAccountAvailable, s\<lparr>failureCount := 0\<rparr>)
                 else if includesStr message ''Fallback failed reason''
                 then (SwitchAndFallbackFailed, s)
                 else if includesStr message ''Switching to account''
                 then (AutomaticSwitchFailed (currentAuthIndex s), s)
                 else (UnknownSwitchingError message, s)) of
             (userMessage, s') \<Rightarrow>
               (case sendErrorCallback callback userMessage of
                  (ns, None) \<Rightarrow> (Inr (), ns, s')
                | (ns, Some v) \<Rightarrow> (Inl (CallbackThrew v), ns, s'))))"

text \<open>
  What lines 237 to 261 do with the outcome of the awaited \<^verbatim>\<open>switchToNextAuth\<close>: the
  rest of the \<^verbatim>\<open>try\<close> block for a returned result, where a throwing callback leads into
  the \<^verbatim>\<open>catch\<close> block, and the \<^verbatim>\<open>catch\<close> block for a thrown value. The first component is
  how the method itself completes: \<open>Inr ()\<close> for a normal return, \<open>Inl x\<close> for an error
  that leaves the method.
\<close>

definition handleSwitchOutcome ::
  "Callback \<Rightarrow> (Thrown + SwitchResult) \<times> 'b AuthSwitcher
     \<Rightarrow> (Escape + unit) \<times> Notification list \<times> 'b AuthSwitcher" where
  "handleSwitchOutcome callback outcome =
     (case outcome of
        (Inr result, s) \<Rightarrow>
          (case sendErrorCallback callback
                  (if \<not> success result then SwitchSkipped (reasonText result)
                   else FellBackTo (currentAuthIndex s)) of
             (ns, None) \<Rightarrow> (Inr (), ns, s)
           | (ns, Some v) \<Rightarrow>
               (case catchBlock callback v s of (r, ns', s') \<Rightarrow> (r, ns @ ns', s')))
      | (Inl error, s) \<Rightarrow> catchBlock callback error s)"

text \<open>
  The errors \<^verbatim>\<open>switchToNextAuth\<close> throws are \<^verbatim>\<open>Error\<close> objects: its own two, and in
  single account mode the rejection of the browser manager, which carries a message.
\<close>

definition thrownBy :: "(string + 'a) \<times> 's \<Rightarrow> (Thrown + 'a) \<times> 's" where
  "thrownBy outcome =
     (case outcome of (Inl message, s) \<Rightarrow> (Inl (Error message), s) | (Inr r, s) \<Rightarrow> (Inr r, s))"

definition isImmediateSwitch :: "Config \<Rightarrow> ErrorDetails \<Rightarrow> bool" where
  "isImmediateSwitch cfg errorDetails =
     (status errorDetails \<in> set (immediateSwitchStatusCodes cfg))"

definition isThresholdReached :: "Config \<Rightarrow> int \<Rightarrow> bool" where
  "isThresholdReached cfg count = (failureThreshold cfg > 0 \<and> count \<ge> failureThreshold cfg)"

text \<open>Lines 208 to 264.\<close>

definition handleRequestFailureAndSwitch ::
  "'b BrowserOps \<Rightarrow> ErrorDetails \<Rightarrow> Callback \<Rightarrow> 'b AuthSwitcher
     \<Rightarrow> (Escape + unit) \<times> Notification list \<times> 'b AuthSwitcher" where
  "handleRequestFailureAndSwitch ops errorDetails callback s =
     (let s1 = s\<lparr>failureCount := failureCount s + 1\<rparr> in
      if isImmediateSwitch (config s1) errorDetails
           \<or> isThresholdReached (config s1) (failureCount s1)
      then handleSwitchOutcome callback (thrownBy (switchToNextAuth ops s1))
      else (Inr (), [], s1))"

section \<open>Auxiliary definitions for stating the properties\<close>

text \<open>The record of one awaited \<^verbatim>\<open>switchAccount\<close> call.\<close>

definition switchAttempt :: "bool \<Rightarrow> bool \<Rightarrow> int \<Rightarrow> Attempt" where
  "switchAttempt busy ok a = \<lparr>request = SwitchAccount a, whileBusy = busy, resolved = ok\<rparr>"

text \<open>
  Attempting the accounts of a list one after the other until the first one that
  resolves: the orchestration as the specification describes it, to be compared with the
  index arithmetic of \<open>tryAccounts\<close>.
\<close>

fun attemptInOrder ::
  "'b BrowserOps \<Rightarrow> int list \<Rightarrow> int list \<Rightarrow> 'b AuthSwitcher
     \<Rightarrow> int option \<times> int list \<times> 'b AuthSwitcher" where
  "attemptInOrder ops [] failed s = (None, failed, s)"
| "attemptInOrder ops (a # rest) failed s =
     (case callSwitchAccount ops a s of
        (Inr u, s') \<Rightarrow> (Some a, failed, resetCounters s')
      | (Inl e, s') \<Rightarrow> attemptInOrder ops rest (failed @ [a]) s')"

text \<open>
  The order of attempts in multi-account mode: when the current index is in the list,
  the other positions walking forward from its position with wraparound and then the
  current index itself, the original; otherwise the whole list.
\<close>

definition attemptOrder :: "int list \<Rightarrow> int \<Rightarrow> int list" where
  "attemptOrder available current =
     (if current \<in> set available then
        (let p = nat (indexOf available current)
         in drop (Suc p) available @ take p available @ [current])
      else available)"

text \<open>
  The accounts the code of lines 88 to 168 goes through, in order, until one resolves.
  The test of line 143 is on the truthiness of \<^verbatim>\<open>originalStartAccount\<close>, so this is
  \<open>attemptOrder\<close> except when the current index is in the list and is \<open>0\<close>.
\<close>

definition attemptedAccounts :: "int list \<Rightarrow> int \<Rightarrow> int list" where
  "attemptedAccounts available current =
     (if current \<in> set available then
        (let p = nat (indexOf available current)
         in drop (Suc p) available @ take p available @ (if current \<noteq> 0 then [current] else []))
      else available)"

definition switchedResult :: "int \<Rightarrow> int list \<Rightarrow> bool \<Rightarrow> SwitchResult" where
  "switchedResult a failed final =
     \<lparr>success = True, newIndex = Some a, failedAccounts = Some failed,
      finalAttempt = (if final then Some True else None), reason = None\<rparr>"

text \<open>
  The attempts of a run over \<open>order\<close> that stops after \<open>k\<close> failures: \<open>k\<close> rejected calls,
  followed by one resolved call when there is a \<open>k\<close>-th account left.
\<close>

definition runShape ::
  "int list \<Rightarrow> bool \<Rightarrow> nat \<Rightarrow> Attempt list" where
  "runShape order busy k =
     map (switchAttempt busy False) (take k order)
       @ (if k < length order then [switchAttempt busy True (order ! k)] else [])"

text \<open>
  A scripted browser manager for the examples: activating an account of \<open>failing\<close>
  rejects, activating any other account makes it the current one.
\<close>

definition scriptedOps :: "int list \<Rightarrow> unit BrowserOps" where
  "scriptedOps failing =
     \<lparr>launchOrSwitchContext =
        (\<lambda>i bm. if i \<in> set failing then (Inl ''activation failed'', bm)
                 else (Inr (), bm\<lparr>bmCurrentAuthIndex := i\<rparr>)),
      switchAccount =
        (\<lambda>i bm. if i \<in> set failing then (Inl ''activation failed'', bm)
                 else (Inr (), bm\<lparr>bmCurrentAuthIndex := i\<rparr>))\<rparr>"

definition exampleSwitcher :: "int list \<Rightarrow> int \<Rightarrow> bool \<Rightarrow> unit AuthSwitcher" where
  "exampleSwitcher available current busy =
     \<lparr>config = \<lparr>failureThreshold = 3, immediateSwitchStatusCodes = [429, 503], switchOnUses = 0\<rparr>,
      authSource = \<lparr>availableIndices = available\<rparr>,
      browserManager = \<lparr>bmCurrentAuthIndex = current, session = ()\<rparr>,
      failureCount = 2, usageCount = 7, isSystemBusy = busy, attempts = []\<rparr>"

text \<open>A series of failure reports, one after the other, with the messages they send.\<close>

fun reportFailures ::
  "'b BrowserOps \<Rightarrow> ErrorDetails list \<Rightarrow> Callback \<Rightarrow> 'b AuthSwitcher
     \<Rightarrow> Notification list \<times> 'b AuthSwitcher" where
  "reportFailures ops [] callback s = ([], s)"
| "reportFailures ops (e # es) callback s =
     (case handleRequestFailureAndSwitch ops e callback s of
        (r, ns, s') \<Rightarrow>
          (case reportFailures ops es callback s' of
             (ns', s'') \<Rightarrow> (ns @ ns', s'')))"

declare reportFailures.simps [simp del]

section \<open>Lemmas about the model\<close>

lemma indexOf_ge: "indexOf xs v \<ge> - 1"
  by (induction xs) (auto simp: Let_def)

lemma indexOf_absent_iff: "(indexOf xs v = - 1) = (v \<notin> set xs)"
proof (induction xs)
  case Nil show ?case by simp
next
  case (Cons x xs)
  have "indexOf xs v \<ge> - 1" by (rule indexOf_ge)
  with Cons show ?case by (auto simp: Let_def)
qed

lemma indexOf_first:
  "p < length xs \<Longrightarrow> xs ! p = v \<Longrightarrow> (\<forall>q<p. xs ! q \<noteq> v) \<Longrightarrow> indexOf xs v = int p"
proof (induction xs arbitrary: p)
  case Nil then show ?case by simp
next
  case (Cons x xs)
  show ?case
  proof (cases p)
    case 0 with Cons.prems show ?thesis by simp
  next
    case (Suc p')
    from Cons.prems Suc have a: "x \<noteq> v" by auto
    from Cons.prems Suc have b: "p' < length xs" "xs ! p' = v" by auto
    from Cons.prems Suc have c: "\<forall>q<p'. xs ! q \<noteq> v" by auto
    from Cons.IH[OF b c] a Suc show ?thesis by (simp add: Let_def)
  qed
qed

lemma indexOf_member:
  "v \<in> set xs \<Longrightarrow> 0 \<le> indexOf xs v \<and> nat (indexOf xs v) < length xs \<and> xs ! nat (indexOf xs v) = v
     \<and> (\<forall>q < nat (indexOf xs v). xs ! q \<noteq> v)"
proof (induction xs)
  case Nil then show ?case by simp
next
  case (Cons x xs)
  show ?case
  proof (cases "x = v")
    case True then show ?thesis by simp
  next
    case False
    with Cons.prems have m: "v \<in> set xs" by simp
    from Cons.IH[OF m] have ih: "0 \<le> indexOf xs v" "nat (indexOf xs v) < length xs"
      "xs ! nat (indexOf xs v) = v" "\<forall>q < nat (indexOf xs v). xs ! q \<noteq> v" by auto
    have e: "indexOf (x # xs) v = indexOf xs v + 1" using False ih(1) by (simp add: Let_def)
    have n: "nat (indexOf xs v + 1) = Suc (nat (indexOf xs v))" using ih(1) by simp
    show ?thesis unfolding e n using ih False
      by (auto simp: nth_Cons split: nat.splits)
  qed
qed

lemma rotation_others:
  assumes "p < length av"
  shows "map (\<lambda>j. av ! ((p + j) mod length av)) [1..<length av] = drop (Suc p) av @ take p av"
proof (rule nth_equalityI)
  show "length (map (\<lambda>j. av ! ((p + j) mod length av)) [1..<length av]) = length (drop (Suc p) av @ take p av)"
    using assms by auto
next
  fix i assume "i < length (map (\<lambda>j. av ! ((p + j) mod length av)) [1..<length av])"
  then have i: "i < length av - 1" by simp
  show "map (\<lambda>j. av ! ((p + j) mod length av)) [1..<length av] ! i = (drop (Suc p) av @ take p av) ! i"
  proof (cases "i < length av - Suc p")
    case True
    then have "(p + (1 + i)) mod length av = Suc p + i" by simp
    with True i show ?thesis by (simp add: nth_append)
  next
    case False
    then have "p + (1 + i) = length av + (i - (length av - Suc p))" using assms i by simp
    then have "(p + (1 + i)) mod length av = (i - (length av - Suc p)) mod length av"
      by (metis mod_add_self1)
    also have "\<dots> = i - (length av - Suc p)" using i by simp
    finally show ?thesis using False i assms by (simp add: nth_append)
  qed
qed

lemma rotation_all:
  "map (\<lambda>j. av ! ((0 + j) mod length av)) [0..<0 + length av] = av"
  by (rule nth_equalityI) auto

lemma tryAccounts_attemptInOrder:
  "tryAccounts ops av p limit i failed s =
     attemptInOrder ops (map (\<lambda>j. av ! ((p + j) mod length av)) [i..<limit]) failed s"
proof (induction ops av p limit i failed s rule: tryAccounts.induct)
  case (1 ops av p limit i failed s)
  show ?case
  proof (cases "i < limit")
    case False
    then show ?thesis by (simp add: tryAccounts.simps)
  next
    case True
    then have u: "[i..<limit] = i # [i + 1..<limit]" by (simp add: upt_conv_Cons)
    show ?thesis
      using True "1.IH"
      by (subst tryAccounts.simps, subst u)
         (auto simp: Let_def split: prod.splits sum.splits)
  qed
qed

lemma callSwitchAccount_frame:
  "callSwitchAccount ops a s = (r, s') \<Longrightarrow>
     attempts s' = attempts s @ [switchAttempt (isSystemBusy s) (\<not> isl r) a]
     \<and> isSystemBusy s' = isSystemBusy s \<and> config s' = config s \<and> authSource s' = authSource s
     \<and> failureCount s' = failureCount s \<and> usageCount s' = usageCount s"
  by (auto simp: callSwitchAccount_def recordAttempt_def switchAttempt_def)

lemma attemptInOrder_run:
  "attemptInOrder ops order failed s = (r, failed', s') \<Longrightarrow>
   \<exists>k\<le>length order.
     attempts s' = attempts s @ map (switchAttempt (isSystemBusy s) False) (take k order)
        @ (if k < length order then [switchAttempt (isSystemBusy s) True (order ! k)] else [])
     \<and> failed' = failed @ take k order
     \<and> r = (if k < length order then Some (order ! k) else None)
     \<and> isSystemBusy s' = isSystemBusy s \<and> config s' = config s \<and> authSource s' = authSource s
     \<and> (if k < length order then failureCount s' = 0 \<and> usageCount s' = 0
         else failureCount s' = failureCount s \<and> usageCount s' = usageCount s)"
proof (induction order arbitrary: failed s)
  case Nil
  then show ?case by simp
next
  case (Cons a rest)
  obtain c s1 where c: "callSwitchAccount ops a s = (c, s1)" by (cases "callSwitchAccount ops a s")
  note fr = callSwitchAccount_frame[OF c]
  show ?case
  proof (cases c)
    case (Inr u)
    with Cons.prems c have e: "r = Some a" "failed' = failed" "s' = resetCounters s1" by auto
    show ?thesis
      apply (rule exI[of _ 0])
      using e fr Inr by (simp add: resetCounters_def)
  next
    case (Inl m)
    with Cons.prems c have "attemptInOrder ops rest (failed @ [a]) s1 = (r, failed', s')" by simp
    from Cons.IH[OF this] obtain k where k: "k \<le> length rest"
      "attempts s' = attempts s1 @ map (switchAttempt (isSystemBusy s1) False) (take k rest)
        @ (if k < length rest then [switchAttempt (isSystemBusy s1) True (rest ! k)] else [])"
      "failed' = (failed @ [a]) @ take k rest"
      "r = (if k < length rest then Some (rest ! k) else None)"
      "isSystemBusy s' = isSystemBusy s1" "config s' = config s1" "authSource s' = authSource s1"
      "(if k < length rest then failureCount s' = 0 \<and> usageCount s' = 0
         else failureCount s' = failureCount s1 \<and> usageCount s' = usageCount s1)"
      by blast
    show ?thesis
      apply (rule exI[of _ "Suc k"])
      using k fr Inl by simp
  qed
qed

lemma multiAccountSwitch_absent:
  assumes "currentAuthIndex s \<notin> set av"
  shows "multiAccountSwitch ops av s =
     (case attemptInOrder ops av [] s of
        (Some a, failed, s') \<Rightarrow> (Inr (switchedResult a failed False), s')
      | (None, failed, s') \<Rightarrow> (Inl failed, s'))"
proof -
  have i: "indexOf av (currentAuthIndex s) = - 1" using assms by (simp add: indexOf_absent_iff)
  obtain r f s1 where a: "attemptInOrder ops av [] s = (r, f, s1)"
    by (cases "attemptInOrder ops av [] s") auto
  have t: "tryAccounts ops av 0 (0 + length av) 0 [] s = (r, f, s1)"
    using a rotation_all[of av] by (simp only: tryAccounts_attemptInOrder)
  show ?thesis
    unfolding multiAccountSwitch_def Let_def i a using t
    by (cases r) (simp_all add: switchedResult_def)
qed

lemma multiAccountSwitch_member:
  assumes "currentAuthIndex s \<in> set av"
  shows "multiAccountSwitch ops av s =
     (case attemptInOrder ops
             (drop (Suc (nat (indexOf av (currentAuthIndex s)))) av
                @ take (nat (indexOf av (currentAuthIndex s))) av) [] s of
        (Some a, failed, s') \<Rightarrow> (Inr (switchedResult a failed False), s')
      | (None, failed, s') \<Rightarrow>
          if currentAuthIndex s \<noteq> 0 then
            (case callSwitchAccount ops (currentAuthIndex s) s' of
               (Inr u, s'') \<Rightarrow>
                 (Inr (switchedResult (currentAuthIndex s) failed True), resetCounters s'')
             | (Inl e, s'') \<Rightarrow> (Inl (failed @ [currentAuthIndex s]), s''))
          else (Inl failed, s'))"
proof -
  let ?c = "currentAuthIndex s"
  let ?p = "nat (indexOf av ?c)"
  from indexOf_member[OF assms] have m: "0 \<le> indexOf av ?c" "?p < length av" "av ! ?p = ?c" by auto
  have ne: "(indexOf av ?c \<noteq> - 1) = True" using m(1) by simp
  have lim: "1 + (length av - 1) = length av" using m(2) by simp
  obtain r f s1 where a: "attemptInOrder ops (drop (Suc ?p) av @ take ?p av) [] s = (r, f, s1)"
    by (cases "attemptInOrder ops (drop (Suc ?p) av @ take ?p av) [] s") auto
  have t: "tryAccounts ops av ?p (1 + (length av - 1)) 1 [] s = (r, f, s1)"
    using a rotation_others[OF m(2)] by (simp only: tryAccounts_attemptInOrder lim)
  obtain c s2 where c: "callSwitchAccount ops ?c s1 = (c, s2)"
    by (cases "callSwitchAccount ops ?c s1")
  show ?thesis
    unfolding multiAccountSwitch_def Let_def ne if_True t a m(3)
    by (cases r; cases c) (simp_all add: switchedResult_def c)
qed

lemma multiAccountSwitch_run:
  assumes run: "multiAccountSwitch ops av s = (out, s')"
  shows "\<exists>k\<le>length (attemptedAccounts av (currentAuthIndex s)).
     attempts s' = attempts s @ runShape (attemptedAccounts av (currentAuthIndex s)) (isSystemBusy s) k
     \<and> (if k < length (attemptedAccounts av (currentAuthIndex s))
         then out = Inr (switchedResult (attemptedAccounts av (currentAuthIndex s) ! k)
                           (take k (attemptedAccounts av (currentAuthIndex s)))
                           (currentAuthIndex s \<in> set av \<and> k = length av - 1))
              \<and> failureCount s' = 0 \<and> usageCount s' = 0
         else out = Inl (attemptedAccounts av (currentAuthIndex s))
              \<and> failureCount s' = failureCount s \<and> usageCount s' = usageCount s)
     \<and> isSystemBusy s' = isSystemBusy s \<and> config s' = config s \<and> authSource s' = authSource s"
proof (cases "currentAuthIndex s \<in> set av")
  case False
  then have o: "attemptedAccounts av (currentAuthIndex s) = av" by (simp add: attemptedAccounts_def)
  obtain r f s1 where a: "attemptInOrder ops av [] s = (r, f, s1)"
    by (cases "attemptInOrder ops av [] s") auto
  from attemptInOrder_run[OF a] obtain k where k: "k \<le> length av"
     "attempts s1 = attempts s @ map (switchAttempt (isSystemBusy s) False) (take k av)
        @ (if k < length av then [switchAttempt (isSystemBusy s) True (av ! k)] else [])"
     "f = [] @ take k av"
     "r = (if k < length av then Some (av ! k) else None)"
     "isSystemBusy s1 = isSystemBusy s" "config s1 = config s" "authSource s1 = authSource s"
     "(if k < length av then failureCount s1 = 0 \<and> usageCount s1 = 0
         else failureCount s1 = failureCount s \<and> usageCount s1 = usageCount s)"
    by blast
  from run have e: "(out, s') = (case r of Some a \<Rightarrow> (Inr (switchedResult a f False), s1)
      | None \<Rightarrow> (Inl f, s1))"
    by (cases r) (simp_all add: multiAccountSwitch_absent[OF False] a)
  show ?thesis
    unfolding o
    apply (rule exI[of _ k])
    using k e False by (auto simp: runShape_def)
next
  case True
  let ?c = "currentAuthIndex s"
  define others where
    "others = drop (Suc (nat (indexOf av ?c))) av @ take (nat (indexOf av ?c)) av"
  from indexOf_member[OF True] have m: "nat (indexOf av ?c) < length av" by auto
  have lo: "length others = length av - 1" using m by (simp add: others_def)
  have o: "attemptedAccounts av ?c = others @ (if ?c \<noteq> 0 then [?c] else [])"
    using True by (simp add: attemptedAccounts_def Let_def others_def)
  obtain r f s1 where a: "attemptInOrder ops others [] s = (r, f, s1)"
    by (cases "attemptInOrder ops others [] s") auto
  from attemptInOrder_run[OF a] obtain k where k: "k \<le> length others"
     "attempts s1 = attempts s @ map (switchAttempt (isSystemBusy s) False) (take k others)
        @ (if k < length others then [switchAttempt (isSystemBusy s) True (others ! k)] else [])"
     "f = [] @ take k others"
     "r = (if k < length others then Some (others ! k) else None)"
     "isSystemBusy s1 = isSystemBusy s" "config s1 = config s" "authSource s1 = authSource s"
     "(if k < length others then failureCount s1 = 0 \<and> usageCount s1 = 0
         else failureCount s1 = failureCount s \<and> usageCount s1 = usageCount s)"
    by blast
  obtain c s2 where c: "callSwitchAccount ops ?c s1 = (c, s2)"
    by (cases "callSwitchAccount ops ?c s1")
  note fr = callSwitchAccount_frame[OF c]
  have ms: "multiAccountSwitch ops av s =
      (case r of Some a \<Rightarrow> (Inr (switchedResult a f False), s1)
       | None \<Rightarrow> if ?c \<noteq> 0 then
            (case callSwitchAccount ops ?c s1 of
               (Inr u, s'') \<Rightarrow> (Inr (switchedResult ?c f True), resetCounters s'')
             | (Inl e, s'') \<Rightarrow> (Inl (f @ [?c]), s''))
          else (Inl f, s1))"
    unfolding multiAccountSwitch_member[OF True] others_def[symmetric] a by (cases r) simp_all
  have e: "(out, s') =
      (case r of Some a \<Rightarrow> (Inr (switchedResult a f False), s1)
       | None \<Rightarrow> if ?c \<noteq> 0 then
            (case c of Inr u \<Rightarrow> (Inr (switchedResult ?c f True), resetCounters s2)
             | Inl e \<Rightarrow> (Inl (f @ [?c]), s2))
          else (Inl f, s1))"
    using run unfolding ms c by (cases r; cases c) (auto split: if_splits)
  show ?thesis
  proof (cases "k < length others")
    case kl: True
    then have r: "r = Some (others ! k)" using k(4) by simp
    from e r have os: "out = Inr (switchedResult (others ! k) f False)" "s' = s1" by auto
    have nk: "k \<noteq> length av - 1" using kl lo by simp
    show ?thesis
      unfolding o
      apply (rule exI[of _ k])
      using k kl os nk by (simp add: runShape_def nth_append)
  next
    case kl: False
    then have keq: "k = length others" using k(1) by simp
    have r: "r = None" using k(4) kl by simp
    have f: "f = others" using k(3) keq by simp
    show ?thesis
    proof (cases "?c = 0")
      case z: True
      from e r z have os: "out = Inl f" "s' = s1" by auto
      show ?thesis
        unfolding o
        apply (rule exI[of _ k])
        using k kl os z f keq by (simp add: runShape_def)
    next
      case z: False
      show ?thesis
      proof (cases c)
        case (Inl m)
        from e r z Inl have os: "out = Inl (f @ [?c])" "s' = s2" by auto
        show ?thesis
          unfolding o
          apply (rule exI[of _ "Suc k"])
          using k kl os z f keq fr Inl by (simp add: runShape_def)
      next
        case (Inr u)
        from e r z Inr have os: "out = Inr (switchedResult ?c f True)" "s' = resetCounters s2" by auto
        show ?thesis
          unfolding o
          apply (rule exI[of _ k])
          using k kl os z f keq fr Inr True lo by (simp add: runShape_def resetCounters_def nth_append)
      qed
    qed
  qed
qed

lemma switchToNextAuth_multi:
  assumes "\<not> isSystemBusy s" "length (availableIndices (authSource s)) > 1"
  shows "switchToNextAuth ops s =
     (case multiAccountSwitch ops (availableIndices (authSource s)) (s\<lparr>isSystemBusy := True\<rparr>) of
        (Inr r, s') \<Rightarrow> (Inr r, s'\<lparr>isSystemBusy := False\<rparr>)
      | (Inl failed, s') \<Rightarrow>
          (Inl (allAccountsFailedMessage (length (availableIndices (authSource s)))),
           (setCurrentAuthIndex 0 s')\<lparr>isSystemBusy := False\<rparr>))"
proof -
  obtain r s1 where m: "multiAccountSwitch ops (availableIndices (authSource s)) (s\<lparr>isSystemBusy := True\<rparr>) = (r, s1)"
    by (cases "multiAccountSwitch ops (availableIndices (authSource s)) (s\<lparr>isSystemBusy := True\<rparr>)")
  have a: "(length (availableIndices (authSource s)) = 0) = False"
     "(length (availableIndices (authSource s)) = 1) = False" using assms(2) by auto
  show ?thesis
    unfolding switchToNextAuth_def Let_def a if_False m using assms(1)
    by (cases r) simp_all
qed

lemma switchToNextAuth_multi_run:
  assumes np: "\<not> isSystemBusy s" and len: "length (availableIndices (authSource s)) > 1"
      and run: "switchToNextAuth ops s = (out, s')"
  shows "\<exists>k\<le>length (attemptedAccounts (availableIndices (authSource s)) (currentAuthIndex s)).
     attempts s' = attempts s
        @ runShape (attemptedAccounts (availableIndices (authSource s)) (currentAuthIndex s)) True k
     \<and> (if k < length (attemptedAccounts (availableIndices (authSource s)) (currentAuthIndex s))
         then out = Inr (switchedResult
                           (attemptedAccounts (availableIndices (authSource s)) (currentAuthIndex s) ! k)
                           (take k (attemptedAccounts (availableIndices (authSource s)) (currentAuthIndex s)))
                           (currentAuthIndex s \<in> set (availableIndices (authSource s))
                              \<and> k = length (availableIndices (authSource s)) - 1))
              \<and> failureCount s' = 0 \<and> usageCount s' = 0
         else out = Inl (allAccountsFailedMessage (length (availableIndices (authSource s))))
              \<and> fst (multiAccountSwitch ops (availableIndices (authSource s))
                        (s\<lparr>isSystemBusy := True\<rparr>))
                  = Inl (attemptedAccounts (availableIndices (authSource s)) (currentAuthIndex s))
              \<and> currentAuthIndex s' = 0
              \<and> failureCount s' = failureCount s \<and> usageCount s' = usageCount s)
     \<and> \<not> isSystemBusy s' \<and> config s' = config s \<and> authSource s' = authSource s"
proof -
  let ?av = "availableIndices (authSource s)"
  let ?s1 = "s\<lparr>isSystemBusy := True\<rparr>"
  let ?order = "attemptedAccounts ?av (currentAuthIndex s)"
  obtain r s2 where m: "multiAccountSwitch ops ?av ?s1 = (r, s2)"
    by (cases "multiAccountSwitch ops ?av ?s1")
  have c1: "currentAuthIndex ?s1 = currentAuthIndex s" by (simp add: currentAuthIndex_def)
  from multiAccountSwitch_run[OF m] obtain k where k: "k \<le> length ?order"
    "attempts s2 = attempts s @ runShape ?order True k"
    "(if k < length ?order
         then r = Inr (switchedResult (?order ! k) (take k ?order)
                           (currentAuthIndex s \<in> set ?av \<and> k = length ?av - 1))
              \<and> failureCount s2 = 0 \<and> usageCount s2 = 0
         else r = Inl ?order
              \<and> failureCount s2 = failureCount s \<and> usageCount s2 = usageCount s)"
    "isSystemBusy s2 = True" "config s2 = config s" "authSource s2 = authSource s"
    unfolding c1 by auto
  have e: "(out, s') = (case r of Inr x \<Rightarrow> (Inr x, s2\<lparr>isSystemBusy := False\<rparr>)
      | Inl failed \<Rightarrow> (Inl (allAccountsFailedMessage (length ?av)),
           (setCurrentAuthIndex 0 s2)\<lparr>isSystemBusy := False\<rparr>))"
    using run unfolding switchToNextAuth_multi[OF np len] m by (cases r) simp_all
  show ?thesis
  proof (cases "k < length ?order")
    case True
    with k(3) e have "out = Inr (switchedResult (?order ! k) (take k ?order)
                           (currentAuthIndex s \<in> set ?av \<and> k = length ?av - 1))"
       "s' = s2\<lparr>isSystemBusy := False\<rparr>" by auto
    with k True show ?thesis
      by (intro exI[of _ k]) simp
  next
    case False
    with k(3) e have "out = Inl (allAccountsFailedMessage (length ?av))"
       "s' = (setCurrentAuthIndex 0 s2)\<lparr>isSystemBusy := False\<rparr>" by auto
    with k False m show ?thesis
      by (intro exI[of _ k]) (simp add: setCurrentAuthIndex_def currentAuthIndex_def)
  qed
qed

lemma switchToNextAuth_single:
  assumes "\<not> isSystemBusy s" "availableIndices (authSource s) = [a]"
  shows "switchToNextAuth ops s =
     (case launchOrSwitchContext ops a (browserManager s) of
        (Inr u, bm) \<Rightarrow>
          (Inr \<lparr>success = True, newIndex = Some a, failedAccounts = None,
                finalAttempt = None, reason = None\<rparr>,
           s\<lparr>browserManager := bm, failureCount := 0, usageCount := 0,
             attempts := attempts s @ [\<lparr>request = LaunchOrSwitchContext a, whileBusy = True, resolved = True\<rparr>]\<rparr>)
      | (Inl e, bm) \<Rightarrow>
          (Inl e,
           s\<lparr>browserManager := bm,
             attempts := attempts s @ [\<lparr>request = LaunchOrSwitchContext a, whileBusy = True, resolved = False\<rparr>]\<rparr>))"
proof -
  obtain r bm where l: "launchOrSwitchContext ops a (browserManager s) = (r, bm)"
    by (cases "launchOrSwitchContext ops a (browserManager s)")
  show ?thesis
    using assms l
    by (cases r)
       (simp_all add: switchToNextAuth_def singleAccountRestart_def callLaunchOrSwitchContext_def
          recordAttempt_def resetCounters_def)
qed

lemma switchToSpecificAuth_member:
  assumes "\<not> isSystemBusy s" "t \<in> set (availableIndices (authSource s))"
  shows "switchToSpecificAuth ops t s =
     (case switchAccount ops t (browserManager s) of
        (Inr u, bm) \<Rightarrow>
          (Inr \<lparr>success = True, newIndex = Some t, failedAccounts = None,
                finalAttempt = None, reason = None\<rparr>,
           s\<lparr>browserManager := bm, failureCount := 0, usageCount := 0,
             attempts := attempts s @ [switchAttempt True True t]\<rparr>)
      | (Inl e, bm) \<Rightarrow>
          (Inl e, s\<lparr>browserManager := bm, attempts := attempts s @ [switchAttempt True False t]\<rparr>))"
proof -
  obtain r bm where l: "switchAccount ops t (browserManager s) = (r, bm)"
    by (cases "switchAccount ops t (browserManager s)")
  show ?thesis
    using assms l
    by (cases r)
       (simp_all add: switchToSpecificAuth_def callSwitchAccount_def switchAttempt_def
          recordAttempt_def resetCounters_def)
qed

section \<open>The claims\<close>

text \<open>
  C8. Next-candidate selection depends only on the candidate list and the current index
  and, being a function from the state to an optional index, changes nothing. An empty
  list gives no candidate; a current index that is not in the list gives the first
  element; a current index at position \<open>p\<close> (its first occurrence, which in a list without
  repetitions is its only one) gives the element at position \<open>(p + 1) mod n\<close>; a
  one-element list gives its sole element.
\<close>

theorem getNextAuthIndex_selection:
  fixes s :: "'b AuthSwitcher" and s2 :: "'c AuthSwitcher"
  shows
  "(availableIndices (authSource s) = [] \<longrightarrow> getNextAuthIndex s = None)
   \<and> (availableIndices (authSource s) \<noteq> []
        \<and> currentAuthIndex s \<notin> set (availableIndices (authSource s))
        \<longrightarrow> getNextAuthIndex s = Some (availableIndices (authSource s) ! 0))
   \<and> (p < length (availableIndices (authSource s))
        \<and> availableIndices (authSource s) ! p = currentAuthIndex s
        \<and> (\<forall>q<p. availableIndices (authSource s) ! q \<noteq> currentAuthIndex s)
        \<longrightarrow> getNextAuthIndex s
            = Some (availableIndices (authSource s)
                      ! ((p + 1) mod length (availableIndices (authSource s)))))
   \<and> (availableIndices (authSource s) = [a] \<longrightarrow> getNextAuthIndex s = Some a)
   \<and> (availableIndices (authSource s) = availableIndices (authSource s2)
        \<and> currentAuthIndex s = currentAuthIndex s2
        \<longrightarrow> getNextAuthIndex s = getNextAuthIndex s2)"
proof (intro conjI impI)
  assume "availableIndices (authSource s) = []"
  then show "getNextAuthIndex s = None" by (simp add: getNextAuthIndex_def)
next
  assume "availableIndices (authSource s) \<noteq> []
        \<and> currentAuthIndex s \<notin> set (availableIndices (authSource s))"
  then show "getNextAuthIndex s = Some (availableIndices (authSource s) ! 0)"
    by (simp add: getNextAuthIndex_def indexOf_absent_iff)
next
  let ?av = "availableIndices (authSource s)"
  assume h: "p < length ?av \<and> ?av ! p = currentAuthIndex s
        \<and> (\<forall>q<p. ?av ! q \<noteq> currentAuthIndex s)"
  then have i: "indexOf ?av (currentAuthIndex s) = int p" by (simp add: indexOf_first)
  have ne: "length ?av \<noteq> 0" using h by auto
  have "(int p + 1) mod int (length ?av) = int ((p + 1) mod length ?av)"
    by (simp add: zmod_int add.commute)
  then have n: "nat ((int p + 1) mod int (length ?av)) = (p + 1) mod length ?av" by simp
  show "getNextAuthIndex s = Some (?av ! ((p + 1) mod length ?av))"
    using ne by (simp add: getNextAuthIndex_def Let_def i n)
next
  assume "availableIndices (authSource s) = [a]"
  then show "getNextAuthIndex s = Some a" by (simp add: getNextAuthIndex_def Let_def)
next
  assume "availableIndices (authSource s) = availableIndices (authSource s2)
        \<and> currentAuthIndex s = currentAuthIndex s2"
  then show "getNextAuthIndex s = getNextAuthIndex s2" by (simp add: getNextAuthIndex_def Let_def)
qed

theorem getNextAuthIndex_selection_witness:
  "getNextAuthIndex (exampleSwitcher [] 1 False) = None
   \<and> getNextAuthIndex (exampleSwitcher [4, 5, 6] 9 False) = Some 4
   \<and> getNextAuthIndex (exampleSwitcher [4, 5, 6] 6 False) = Some 4
   \<and> getNextAuthIndex (exampleSwitcher [4] 4 False) = Some 4
   \<and> getNextAuthIndex (exampleSwitcher [4, 5, 6] 5 False)
       = getNextAuthIndex (exampleSwitcher [4, 5, 6] 5 True)"
proof -
  have a: "getNextAuthIndex (exampleSwitcher [] 1 False) = None"
    using getNextAuthIndex_selection[of "exampleSwitcher [] 1 False" 0 0 "exampleSwitcher [] 1 False"]
    by (simp add: exampleSwitcher_def)
  have b: "getNextAuthIndex (exampleSwitcher [4, 5, 6] 9 False) = Some 4"
    using getNextAuthIndex_selection[of "exampleSwitcher [4, 5, 6] 9 False" 0 0
        "exampleSwitcher [4, 5, 6] 9 False"]
    by (simp add: exampleSwitcher_def currentAuthIndex_def)
  have q: "\<forall>q<2. [4, 5, 6 :: int] ! q \<noteq> 6"
  proof (intro allI impI)
    fix q :: nat assume "q < 2"
    then have "q = 0 \<or> q = 1" by auto
    then show "[4, 5, 6 :: int] ! q \<noteq> 6" by auto
  qed
  have c: "getNextAuthIndex (exampleSwitcher [4, 5, 6] 6 False) = Some 4"
    using getNextAuthIndex_selection[of "exampleSwitcher [4, 5, 6] 6 False" 2 0
        "exampleSwitcher [4, 5, 6] 6 False"] q
    by (simp add: exampleSwitcher_def currentAuthIndex_def)
  have d: "getNextAuthIndex (exampleSwitcher [4] 4 False) = Some 4"
    using getNextAuthIndex_selection[of "exampleSwitcher [4] 4 False" 0 4
        "exampleSwitcher [4] 4 False"]
    by (simp add: exampleSwitcher_def)
  have e: "getNextAuthIndex (exampleSwitcher [4, 5, 6] 5 False)
       = getNextAuthIndex (exampleSwitcher [4, 5, 6] 5 True)"
    using getNextAuthIndex_selection[of "exampleSwitcher [4, 5, 6] 5 False" 0 0
        "exampleSwitcher [4, 5, 6] 5 True"]
    by (simp add: exampleSwitcher_def currentAuthIndex_def)
  from a b c d e show ?thesis by blast
qed

lemma attemptedAccounts_original:
  "current \<notin> set available \<or> current \<noteq> 0
     \<Longrightarrow> attemptedAccounts available current = attemptOrder available current"
  by (auto simp: attemptedAccounts_def attemptOrder_def)

text \<open>
  The orchestration for a current index that is in the list and is not \<open>0\<close>. Take a
  candidate list of more than one element in which the current index occurs, first at
  position \<open>p\<close>, and no switch in progress. The accounts are attempted one after the
  other: first the other \<open>n - 1\<close> positions, walking forward from \<open>p\<close> with wraparound,
  and last the current index itself, as the final attempt. The run stops at the first
  attempt that resolves; the result is then a success whose \<^verbatim>\<open>newIndex\<close> is that account
  and whose \<^verbatim>\<open>failedAccounts\<close> are the accounts attempted before it, in order, with both
  counters at \<open>0\<close>.
\<close>

lemma attempt_order_with_original:
  assumes idle: "\<not> isSystemBusy s"
      and av: "av = availableIndices (authSource s)"
      and cur: "cur = currentAuthIndex s"
      and many: "length av > 1"
      and pos: "p < length av" "av ! p = cur" "\<forall>q<p. av ! q \<noteq> cur"
      and nonzero: "cur \<noteq> 0"
      and order: "order = drop (Suc p) av @ take p av @ [cur]"
      and run: "switchToNextAuth ops s = (out, s')"
  shows "\<exists>k\<le>length order.
           attempts s' = attempts s
              @ map (switchAttempt True False) (take k order)
              @ (if k < length order then [switchAttempt True True (order ! k)] else [])
           \<and> (if k < length order
               then out = Inr \<lparr>success = True, newIndex = Some (order ! k),
                               failedAccounts = Some (take k order),
                               finalAttempt = (if k = length av - 1 then Some True else None),
                               reason = None\<rparr>
                    \<and> failureCount s' = 0 \<and> usageCount s' = 0
               else out = Inl (allAccountsFailedMessage (length av)))"
proof -
  have mem: "cur \<in> set av" using pos(1,2) by (metis nth_mem)
  have ix: "nat (indexOf av cur) = p" using indexOf_first[OF pos] by simp
  have o: "attemptedAccounts av cur = order"
    using mem nonzero by (simp add: attemptedAccounts_def Let_def ix order)
  from many have len: "length (availableIndices (authSource s)) > 1" by (simp add: av)
  from switchToNextAuth_multi_run[OF idle len run]
  obtain k where k: "k \<le> length order"
    "attempts s' = attempts s @ runShape order True k"
    "if k < length order
     then out = Inr (switchedResult (order ! k) (take k order) (cur \<in> set av \<and> k = length av - 1))
          \<and> failureCount s' = 0 \<and> usageCount s' = 0
     else out = Inl (allAccountsFailedMessage (length av))
          \<and> fst (multiAccountSwitch ops av (s\<lparr>isSystemBusy := True\<rparr>)) = Inl order
          \<and> currentAuthIndex s' = 0
          \<and> failureCount s' = failureCount s \<and> usageCount s' = usageCount s"
    unfolding av[symmetric] cur[symmetric] o by blast
  show ?thesis
  proof (intro exI[of _ k] conjI)
    show "k \<le> length order" by (rule k(1))
    show "attempts s' = attempts s
              @ map (switchAttempt True False) (take k order)
              @ (if k < length order then [switchAttempt True True (order ! k)] else [])"
      using k(2) by (simp add: runShape_def)
    show "if k < length order
               then out = Inr \<lparr>success = True, newIndex = Some (order ! k),
                               failedAccounts = Some (take k order),
                               finalAttempt = (if k = length av - 1 then Some True else None),
                               reason = None\<rparr>
                    \<and> failureCount s' = 0 \<and> usageCount s' = 0
               else out = Inl (allAccountsFailedMessage (length av))"
      using k(3) mem by (simp add: switchedResult_def split: if_splits)
  qed
qed

text \<open>
  The example of the specification: candidates \<open>[1, 2, 3]\<close>, current index 1, account 2
  rejects and account 3 resolves. The result is a success with \<^verbatim>\<open>newIndex\<close> 3 and
  \<^verbatim>\<open>failedAccounts\<close> \<open>[2]\<close>, and account 1 is not attempted.
\<close>

lemma attempt_order_example:
  "switchToNextAuth (scriptedOps [2]) (exampleSwitcher [1, 2, 3] 1 False)
     = (Inr \<lparr>success = True, newIndex = Some 3, failedAccounts = Some [2],
              finalAttempt = None, reason = None\<rparr>,
        (exampleSwitcher [1, 2, 3] 3 False)
          \<lparr>failureCount := 0, usageCount := 0,
            attempts := [switchAttempt True False 2, switchAttempt True True 3]\<rparr>)"
  by (simp add: switchToNextAuth_def multiAccountSwitch_def tryAccounts.simps
      callSwitchAccount_def recordAttempt_def scriptedOps_def exampleSwitcher_def
      currentAuthIndex_def resetCounters_def switchAttempt_def Let_def)

text \<open>
  C1. The specification has the original candidate attempted once, as the final
  attempt, after all others have failed, for every candidate list of more than one
  element that contains the current index. The code does not do so when the current
  index is the candidate \<open>0\<close>. With candidates \<open>[0, 1]\<close>, current index 0, no switch in
  progress and account 1 rejecting, the loop passes over account 0 as the current one
  and line 143 passes over it again because \<open>0\<close> is falsy: the only call is
  \<^verbatim>\<open>switchAccount(1)\<close>, account 0 would have resolved but is never attempted, and the call
  fails with \<^verbatim>\<open>All 2 available accounts failed to initialize (including final retry).\<close>
\<close>

theorem original_zero_never_attempted:
  "length (availableIndices (authSource (exampleSwitcher [0, 1] 0 False))) > 1
   \<and> currentAuthIndex (exampleSwitcher [0, 1] 0 False)
        \<in> set (availableIndices (authSource (exampleSwitcher [0, 1] 0 False)))
   \<and> \<not> isSystemBusy (exampleSwitcher [0, 1] 0 False)
   \<and> fst (switchAccount (scriptedOps [1]) 0 (browserManager (exampleSwitcher [0, 1] 0 False)))
        = Inr ()
   \<and> switchToNextAuth (scriptedOps [1]) (exampleSwitcher [0, 1] 0 False)
        = (Inl ''All 2 available accounts failed to initialize (including final retry).'',
           (exampleSwitcher [0, 1] 0 False)
             \<lparr>attempts := [\<lparr>request = SwitchAccount 1, whileBusy = True, resolved = False\<rparr>]\<rparr>)"
  by (simp add: switchToNextAuth_def multiAccountSwitch_def tryAccounts.simps
      callSwitchAccount_def recordAttempt_def scriptedOps_def exampleSwitcher_def
      currentAuthIndex_def setCurrentAuthIndex_def resetCounters_def Let_def
      allAccountsFailedMessage_def digitChar_def showNat.simps)

text \<open>
  C2, as amended. Take a multi-candidate run (more than one candidate, no switch in
  progress) in which no attempt resolves, the current index being either absent from
  the list or a candidate other than \<open>0\<close>. Then every account of the attempt order was
  attempted, in that order: the other positions from the position of the current index
  with wraparound and then the original, when the current index is in the list; the
  whole list when it is not. The list \<^verbatim>\<open>failedAccounts\<close> with which control reaches line
  170 is that order, the current index is reset to \<open>0\<close>, the busy flag is cleared, the
  counters keep their values, and the call fails with the error
  \<^verbatim>\<open>All n available accounts failed to initialize (including final retry).\<close>, where \<open>n\<close> is
  the number of candidates. The error is a message with the count in it; the list of
  failed accounts is written to the log at line 171 and is not part of the error.
\<close>

theorem allCandidatesFailed:
  assumes idle: "\<not> isSystemBusy s"
      and av: "av = availableIndices (authSource s)"
      and many: "length av > 1"
      and original: "currentAuthIndex s \<notin> set av \<or> currentAuthIndex s \<noteq> 0"
      and run: "switchToNextAuth ops s = (out, s')"
      and allFail: "\<forall>a\<in>set (drop (length (attempts s)) (attempts s')). \<not> resolved a"
  shows "out = Inl (allAccountsFailedMessage (length av))
         \<and> fst (multiAccountSwitch ops av (s\<lparr>isSystemBusy := True\<rparr>))
              = Inl (attemptOrder av (currentAuthIndex s))
         \<and> attempts s' = attempts s
              @ map (switchAttempt True False) (attemptOrder av (currentAuthIndex s))
         \<and> currentAuthIndex s' = 0
         \<and> \<not> isSystemBusy s'
         \<and> failureCount s' = failureCount s \<and> usageCount s' = usageCount s"
proof -
  let ?order = "attemptOrder av (currentAuthIndex s)"
  have o: "attemptedAccounts av (currentAuthIndex s) = ?order"
    by (rule attemptedAccounts_original[OF original])
  from many have len: "length (availableIndices (authSource s)) > 1" by (simp add: av)
  from switchToNextAuth_multi_run[OF idle len run]
  obtain k where k: "k \<le> length ?order"
    "attempts s' = attempts s @ runShape ?order True k"
    "if k < length ?order
     then out = Inr (switchedResult (?order ! k) (take k ?order)
                       (currentAuthIndex s \<in> set av \<and> k = length av - 1))
          \<and> failureCount s' = 0 \<and> usageCount s' = 0
     else out = Inl (allAccountsFailedMessage (length av))
          \<and> fst (multiAccountSwitch ops av (s\<lparr>isSystemBusy := True\<rparr>)) = Inl ?order
          \<and> currentAuthIndex s' = 0
          \<and> failureCount s' = failureCount s \<and> usageCount s' = usageCount s"
    "\<not> isSystemBusy s'"
    unfolding av[symmetric] o by blast
  have full: "\<not> k < length ?order"
  proof
    assume lt: "k < length ?order"
    then have "switchAttempt True True (?order ! k) \<in> set (runShape ?order True k)"
      by (simp add: runShape_def)
    moreover have "drop (length (attempts s)) (attempts s') = runShape ?order True k"
      using k(2) by simp
    ultimately have "\<not> resolved (switchAttempt True True (?order ! k))"
      using allFail by simp
    then show False by (simp add: switchAttempt_def)
  qed
  then have keq: "k = length ?order" using k(1) by simp
  have sh: "runShape ?order True k = map (switchAttempt True False) ?order"
    using keq by (simp add: runShape_def)
  show ?thesis using k(2,3,4) full sh by simp
qed

theorem allCandidatesFailed_witness:
  "\<not> isSystemBusy (exampleSwitcher [1, 2, 3] 1 False)
   \<and> length [1, 2, 3 :: int] > 1
   \<and> currentAuthIndex (exampleSwitcher [1, 2, 3] 1 False) \<noteq> 0
   \<and> attemptOrder [1, 2, 3] (currentAuthIndex (exampleSwitcher [1, 2, 3] 1 False)) = [2, 3, 1]
   \<and> switchToNextAuth (scriptedOps [1, 2, 3]) (exampleSwitcher [1, 2, 3] 1 False)
       = (Inl ''All 3 available accounts failed to initialize (including final retry).'',
          (exampleSwitcher [1, 2, 3] 0 False)
            \<lparr>attempts := [switchAttempt True False 2, switchAttempt True False 3,
                          switchAttempt True False 1]\<rparr>)
   \<and> fst (multiAccountSwitch (scriptedOps [1, 2, 3]) [1, 2, 3]
            ((exampleSwitcher [1, 2, 3] 1 False)\<lparr>isSystemBusy := True\<rparr>))
       = Inl [2, 3, 1]
   \<and> currentAuthIndex ((exampleSwitcher [1, 2, 3] 0 False)
            \<lparr>attempts := [switchAttempt True False 2, switchAttempt True False 3,
                          switchAttempt True False 1]\<rparr>) = 0"
proof -
  let ?s = "exampleSwitcher [1, 2, 3] 1 False"
  let ?s' = "(exampleSwitcher [1, 2, 3] 0 False)
            \<lparr>attempts := [switchAttempt True False 2, switchAttempt True False 3,
                          switchAttempt True False 1]\<rparr>"
  have idle: "\<not> isSystemBusy ?s" by (simp add: exampleSwitcher_def)
  have av: "[1, 2, 3] = availableIndices (authSource ?s)" by (simp add: exampleSwitcher_def)
  have many: "length [1, 2, 3 :: int] > 1" by simp
  have nz: "currentAuthIndex ?s \<noteq> 0" by (simp add: exampleSwitcher_def currentAuthIndex_def)
  then have original: "currentAuthIndex ?s \<notin> set [1, 2, 3] \<or> currentAuthIndex ?s \<noteq> 0" by simp
  have run: "switchToNextAuth (scriptedOps [1, 2, 3]) ?s
       = (Inl ''All 3 available accounts failed to initialize (including final retry).'', ?s')"
    by (simp add: switchToNextAuth_def multiAccountSwitch_def tryAccounts.simps
        callSwitchAccount_def recordAttempt_def scriptedOps_def exampleSwitcher_def
        currentAuthIndex_def setCurrentAuthIndex_def resetCounters_def switchAttempt_def
        Let_def allAccountsFailedMessage_def digitChar_def showNat.simps)
  have allFail: "\<forall>a\<in>set (drop (length (attempts ?s)) (attempts ?s')). \<not> resolved a"
    by (simp add: exampleSwitcher_def switchAttempt_def)
  have ord: "attemptOrder [1, 2, 3] (currentAuthIndex ?s) = [2, 3, 1]"
    by (simp add: attemptOrder_def exampleSwitcher_def currentAuthIndex_def Let_def)
  from allCandidatesFailed[OF idle av many original run allFail] idle many nz run ord
  show ?thesis by simp
qed

theorem allCandidatesFailed_counterexample:
  "fst (switchToNextAuth (scriptedOps [1, 2, 3]) (exampleSwitcher [1, 2, 3] 1 False))
     = Inl ''All 3 available accounts failed to initialize (including final retry).''
   \<and> fst (switchToNextAuth (scriptedOps [1, 2, 3]) (exampleSwitcher [1, 2, 3] 2 False))
     = Inl ''All 3 available accounts failed to initialize (including final retry).''
   \<and> fst (multiAccountSwitch (scriptedOps [1, 2, 3]) [1, 2, 3]
            (exampleSwitcher [1, 2, 3] 1 True)) = Inl [2, 3, 1]
   \<and> fst (multiAccountSwitch (scriptedOps [1, 2, 3]) [1, 2, 3]
            (exampleSwitcher [1, 2, 3] 2 True)) = Inl [3, 1, 2]"
  by (simp add: switchToNextAuth_def multiAccountSwitch_def tryAccounts.simps
      callSwitchAccount_def recordAttempt_def scriptedOps_def exampleSwitcher_def
      currentAuthIndex_def setCurrentAuthIndex_def resetCounters_def
      Let_def allAccountsFailedMessage_def digitChar_def showNat.simps)

lemma runShape_whileBusy: "a \<in> set (runShape order True k) \<Longrightarrow> whileBusy a"
  by (auto simp: runShape_def switchAttempt_def split: if_splits)

lemma switchToNextAuth_idle_frame:
  assumes idle: "\<not> isSystemBusy s"
  shows "\<not> isSystemBusy (snd (switchToNextAuth ops s))
         \<and> (\<exists>new. attempts (snd (switchToNextAuth ops s)) = attempts s @ new
                   \<and> (\<forall>a\<in>set new. whileBusy a))"
proof -
  let ?av = "availableIndices (authSource s)"
  consider (empty) "?av = []" | (single) a where "?av = [a]" | (multi) "length ?av > 1"
    by (cases ?av rule: list.exhaust; cases "tl ?av") auto
  then show ?thesis
  proof cases
    case empty
    then show ?thesis using idle by (simp add: switchToNextAuth_def)
  next
    case (single a)
    obtain r bm where l: "launchOrSwitchContext ops a (browserManager s) = (r, bm)"
      by (cases "launchOrSwitchContext ops a (browserManager s)")
    show ?thesis
      unfolding switchToNextAuth_single[OF idle single] l
      using idle by (cases r) simp_all
  next
    case multi
    obtain out s' where run: "switchToNextAuth ops s = (out, s')"
      by (cases "switchToNextAuth ops s")
    from switchToNextAuth_multi_run[OF idle multi run]
    obtain k where "attempts s' = attempts s
        @ runShape (attemptedAccounts ?av (currentAuthIndex s)) True k" "\<not> isSystemBusy s'"
      by blast
    then show ?thesis unfolding run using runShape_whileBusy by auto
  qed
qed

lemma switchToSpecificAuth_idle_frame:
  assumes idle: "\<not> isSystemBusy s"
  shows "\<not> isSystemBusy (snd (switchToSpecificAuth ops t s))
         \<and> (\<exists>new. attempts (snd (switchToSpecificAuth ops t s)) = attempts s @ new
                   \<and> (\<forall>a\<in>set new. whileBusy a))"
proof (cases "t \<in> set (availableIndices (authSource s))")
  case False
  then show ?thesis using idle by (simp add: switchToSpecificAuth_def)
next
  case True
  obtain r bm where l: "switchAccount ops t (browserManager s) = (r, bm)"
    by (cases "switchAccount ops t (browserManager s)")
  show ?thesis
    unfolding switchToSpecificAuth_member[OF idle True] l
    using idle by (cases r) (simp_all add: switchAttempt_def)
qed

text \<open>
  C3, as amended. While a switch is in progress, a direct switch returns at once the
  result \<^verbatim>\<open>{success: false, reason: "Switch already in progress."}\<close>, and so does the
  next-candidate orchestration when the candidate list is not empty; with an empty list
  the orchestration throws its no-sources error instead, because that test comes before
  the busy test. In each of these cases no browser-manager call is made and the state is
  unchanged. When no switch is in progress, the flag is set while each browser-manager
  call of the operation is pending and is clear again when the operation ends, whether
  it returns or throws.
\<close>

theorem busy_gate:
  "(isSystemBusy s \<longrightarrow>
      switchToSpecificAuth ops t s = (Inr skipResult, s)
      \<and> switchToNextAuth ops s
          = (if availableIndices (authSource s) = [] then Inl noSourcesMessage
             else Inr skipResult, s))
   \<and> (\<not> isSystemBusy s \<longrightarrow>
      \<not> isSystemBusy (snd (switchToNextAuth ops s))
      \<and> \<not> isSystemBusy (snd (switchToSpecificAuth ops t s))
      \<and> (\<exists>new. attempts (snd (switchToNextAuth ops s)) = attempts s @ new
                \<and> (\<forall>a\<in>set new. whileBusy a))
      \<and> (\<exists>new. attempts (snd (switchToSpecificAuth ops t s)) = attempts s @ new
                \<and> (\<forall>a\<in>set new. whileBusy a)))"
proof (intro conjI impI)
  assume b: "isSystemBusy s"
  show "switchToSpecificAuth ops t s = (Inr skipResult, s)"
    using b by (simp add: switchToSpecificAuth_def)
  show "switchToNextAuth ops s
          = (if availableIndices (authSource s) = [] then Inl noSourcesMessage
             else Inr skipResult, s)"
    using b by (simp add: switchToNextAuth_def)
next
  assume i: "\<not> isSystemBusy s"
  from switchToNextAuth_idle_frame[OF i, of ops]
  show "\<not> isSystemBusy (snd (switchToNextAuth ops s))"
    and "\<exists>new. attempts (snd (switchToNextAuth ops s)) = attempts s @ new
                \<and> (\<forall>a\<in>set new. whileBusy a)" by blast+
  from switchToSpecificAuth_idle_frame[OF i, of ops t]
  show "\<not> isSystemBusy (snd (switchToSpecificAuth ops t s))"
    and "\<exists>new. attempts (snd (switchToSpecificAuth ops t s)) = attempts s @ new
                \<and> (\<forall>a\<in>set new. whileBusy a)" by blast+
qed

theorem busy_gate_witness:
  "isSystemBusy (exampleSwitcher [1, 2, 3] 1 True)
   \<and> switchToSpecificAuth (scriptedOps []) 2 (exampleSwitcher [1, 2, 3] 1 True)
       = (Inr \<lparr>success = False, newIndex = None, failedAccounts = None, finalAttempt = None,
               reason = Some ''Switch already in progress.''\<rparr>,
          exampleSwitcher [1, 2, 3] 1 True)
   \<and> switchToNextAuth (scriptedOps []) (exampleSwitcher [1, 2, 3] 1 True)
       = (Inr \<lparr>success = False, newIndex = None, failedAccounts = None, finalAttempt = None,
               reason = Some ''Switch already in progress.''\<rparr>,
          exampleSwitcher [1, 2, 3] 1 True)
   \<and> \<not> isSystemBusy (exampleSwitcher [1, 2, 3] 1 False)
   \<and> \<not> isSystemBusy (snd (switchToNextAuth (scriptedOps [2]) (exampleSwitcher [1, 2, 3] 1 False)))
   \<and> \<not> isSystemBusy (snd (switchToSpecificAuth (scriptedOps [2]) 2
                              (exampleSwitcher [1, 2, 3] 1 False)))
   \<and> attempts (snd (switchToNextAuth (scriptedOps [2]) (exampleSwitcher [1, 2, 3] 1 False)))
       = [\<lparr>request = SwitchAccount 2, whileBusy = True, resolved = False\<rparr>,
          \<lparr>request = SwitchAccount 3, whileBusy = True, resolved = True\<rparr>]
   \<and> attempts (snd (switchToSpecificAuth (scriptedOps [2]) 2
                       (exampleSwitcher [1, 2, 3] 1 False)))
       = [\<lparr>request = SwitchAccount 2, whileBusy = True, resolved = False\<rparr>]"
proof -
  have b: "isSystemBusy (exampleSwitcher [1, 2, 3] 1 True)" by (simp add: exampleSwitcher_def)
  have av: "availableIndices (authSource (exampleSwitcher [1, 2, 3] 1 True)) \<noteq> []"
    by (simp add: exampleSwitcher_def)
  have i: "\<not> isSystemBusy (exampleSwitcher [1, 2, 3] 1 False)" by (simp add: exampleSwitcher_def)
  have n: "attempts (snd (switchToNextAuth (scriptedOps [2]) (exampleSwitcher [1, 2, 3] 1 False)))
       = [\<lparr>request = SwitchAccount 2, whileBusy = True, resolved = False\<rparr>,
          \<lparr>request = SwitchAccount 3, whileBusy = True, resolved = True\<rparr>]"
    by (simp add: switchToNextAuth_def multiAccountSwitch_def tryAccounts.simps
        callSwitchAccount_def recordAttempt_def scriptedOps_def exampleSwitcher_def
        currentAuthIndex_def resetCounters_def Let_def)
  have d: "attempts (snd (switchToSpecificAuth (scriptedOps [2]) 2
                       (exampleSwitcher [1, 2, 3] 1 False)))
       = [\<lparr>request = SwitchAccount 2, whileBusy = True, resolved = False\<rparr>]"
    by (simp add: switchToSpecificAuth_def callSwitchAccount_def recordAttempt_def
        scriptedOps_def exampleSwitcher_def)
  from busy_gate[of "exampleSwitcher [1, 2, 3] 1 True" "scriptedOps []" 2]
       busy_gate[of "exampleSwitcher [1, 2, 3] 1 False" "scriptedOps [2]" 2]
       b av i n d
  show ?thesis by (simp add: skipResult_def)
qed

theorem busy_gate_counterexample:
  "isSystemBusy (exampleSwitcher [] 1 True)
   \<and> switchToNextAuth (scriptedOps []) (exampleSwitcher [] 1 True)
       = (Inl ''No available authentication sources, cannot switch.'',
          exampleSwitcher [] 1 True)"
  by (simp add: switchToNextAuth_def exampleSwitcher_def noSourcesMessage_def)

text \<open>
  C6, as amended. For every target that is not in the candidate list, the direct switch
  returns a result with \<^verbatim>\<open>success: false\<close> without throwing, makes no browser-manager call
  and leaves the state as it was. The reason it reports is the invalid-target message
  when no switch is in progress; while a switch is in progress it is
  \<^verbatim>\<open>Switch already in progress.\<close>, because the busy test of line 182 comes before the
  membership test of line 186.
\<close>

theorem invalid_target_fails_fast:
  assumes "targetIndex \<notin> set (availableIndices (authSource s))"
  shows "switchToSpecificAuth ops targetIndex s
     = (Inr \<lparr>success = False, newIndex = None, failedAccounts = None, finalAttempt = None,
             reason = Some (if isSystemBusy s then ''Switch already in progress.''
                            else invalidTargetMessage targetIndex)\<rparr>,
        s)"
  using assms by (simp add: switchToSpecificAuth_def skipResult_def)

theorem invalid_target_fails_fast_witness:
  "9 \<notin> set (availableIndices (authSource (exampleSwitcher [1, 2, 3] 1 False)))
   \<and> switchToSpecificAuth (scriptedOps []) 9 (exampleSwitcher [1, 2, 3] 1 False)
     = (Inr \<lparr>success = False, newIndex = None, failedAccounts = None, finalAttempt = None,
             reason = Some ''Switch failed: Account #9 invalid or does not exist.''\<rparr>,
        exampleSwitcher [1, 2, 3] 1 False)"
proof -
  have m: "9 \<notin> set (availableIndices (authSource (exampleSwitcher [1, 2, 3] 1 False)))"
    by (simp add: exampleSwitcher_def)
  have i: "\<not> isSystemBusy (exampleSwitcher [1, 2, 3] 1 False)" by (simp add: exampleSwitcher_def)
  have t: "invalidTargetMessage 9 = ''Switch failed: Account #9 invalid or does not exist.''"
    by (simp add: invalidTargetMessage_def showInt_def digitChar_def showNat.simps)
  from invalid_target_fails_fast[OF m, of "scriptedOps []"] m i t
  show ?thesis by simp
qed

theorem invalid_target_fails_fast_counterexample:
  "9 \<notin> set (availableIndices (authSource (exampleSwitcher [1, 2, 3] 1 True)))
   \<and> switchToSpecificAuth (scriptedOps []) 9 (exampleSwitcher [1, 2, 3] 1 True)
     = (Inr \<lparr>success = False, newIndex = None, failedAccounts = None, finalAttempt = None,
             reason = Some ''Switch already in progress.''\<rparr>,
        exampleSwitcher [1, 2, 3] 1 True)
   \<and> invalidTargetMessage 9 = ''Switch failed: Account #9 invalid or does not exist.''"
  by (simp add: switchToSpecificAuth_def skipResult_def exampleSwitcher_def
      invalidTargetMessage_def showInt_def digitChar_def showNat.simps)

lemma catchBlock_quiet:
  assumes "\<forall>f n. callback = Some f \<longrightarrow> f n = None"
  shows "catchBlock callback (Error message) t
     = (Inr (),
        (case callback of None \<Rightarrow> []
         | Some f \<Rightarrow>
             [if includesStr message ''Only one account is available''
              then OnlyOneAccountAvailable
              else if includesStr message ''Fallback failed reason''
              then SwitchAndFallbackFailed
              else if includesStr message ''Switching to account''
              then AutomaticSwitchFailed (currentAuthIndex t)
              else UnknownSwitchingError message]),
        (if includesStr message ''Only one account is available''
         then t\<lparr>failureCount := 0\<rparr> else t))"
  using assms by (cases callback) (simp_all add: catchBlock_def sendErrorCallback_def)

lemma handleSwitchOutcome_quiet:
  assumes "\<forall>f n. callback = Some f \<longrightarrow> f n = None"
  shows "fst (handleSwitchOutcome callback (thrownBy out)) = Inr ()"
proof -
  obtain r t where o: "out = (r, t)" by (cases out)
  show ?thesis
  proof (cases r)
    case (Inl m)
    then show ?thesis
      unfolding o
      by (simp add: handleSwitchOutcome_def thrownBy_def catchBlock_quiet[OF assms])
  next
    case (Inr res)
    then show ?thesis
      unfolding o using assms
      by (cases callback) (simp_all add: handleSwitchOutcome_def thrownBy_def sendErrorCallback_def)
  qed
qed

text \<open>
  C5, as amended. When every value thrown by the orchestration is an \<^verbatim>\<open>Error\<close> with a
  string message, as the errors of \<^verbatim>\<open>switchToNextAuth\<close> are, and the callback is absent or
  does not throw, the failure-reporting operation always returns normally: a returned
  result and a thrown error alike end in a normal return, and a thrown error is turned
  into exactly one message for the callback, chosen by the text of the error (none when
  no callback was given), with \<^verbatim>\<open>failureCount\<close> reset when the text contains
  \<^verbatim>\<open>Only one account is available\<close> and the state otherwise as the orchestration left it.
\<close>

theorem failure_report_never_raises:
  assumes quiet: "\<forall>f n. callback = Some f \<longrightarrow> f n = None"
  shows "fst (handleRequestFailureAndSwitch ops e callback s) = Inr ()
   \<and> fst (handleSwitchOutcome callback (Inr result, t)) = Inr ()
   \<and> fst (handleSwitchOutcome callback (Inl (Error message), t)) = Inr ()
   \<and> ((status e \<in> set (immediateSwitchStatusCodes (config s))
          \<or> (failureThreshold (config s) > 0
              \<and> failureCount s + 1 \<ge> failureThreshold (config s)))
        \<and> switchToNextAuth ops (s\<lparr>failureCount := failureCount s + 1\<rparr>) = (Inl message, t)
       \<longrightarrow> handleRequestFailureAndSwitch ops e callback s
           = (Inr (),
              (case callback of None \<Rightarrow> []
               | Some f \<Rightarrow>
                   [if includesStr message ''Only one account is available''
                    then OnlyOneAccountAvailable
                    else if includesStr message ''Fallback failed reason''
                    then SwitchAndFallbackFailed
                    else if includesStr message ''Switching to account''
                    then AutomaticSwitchFailed (currentAuthIndex t)
                    else UnknownSwitchingError message]),
              (if includesStr message ''Only one account is available''
               then t\<lparr>failureCount := 0\<rparr> else t)))"
proof (intro conjI impI)
  show "fst (handleRequestFailureAndSwitch ops e callback s) = Inr ()"
    by (simp add: handleRequestFailureAndSwitch_def Let_def handleSwitchOutcome_quiet[OF quiet])
  show "fst (handleSwitchOutcome callback (Inr result, t)) = Inr ()"
    using handleSwitchOutcome_quiet[OF quiet, of "(Inr result, t)"] by (simp add: thrownBy_def)
  show "fst (handleSwitchOutcome callback (Inl (Error message), t)) = Inr ()"
    using handleSwitchOutcome_quiet[OF quiet, of "(Inl message, t)"] by (simp add: thrownBy_def)
next
  assume h: "(status e \<in> set (immediateSwitchStatusCodes (config s))
          \<or> (failureThreshold (config s) > 0
              \<and> failureCount s + 1 \<ge> failureThreshold (config s)))
        \<and> switchToNextAuth ops (s\<lparr>failureCount := failureCount s + 1\<rparr>) = (Inl message, t)"
  then have "handleRequestFailureAndSwitch ops e callback s
      = catchBlock callback (Error message) t"
    by (simp add: handleRequestFailureAndSwitch_def isImmediateSwitch_def
        isThresholdReached_def Let_def thrownBy_def handleSwitchOutcome_def)
  then show "handleRequestFailureAndSwitch ops e callback s
           = (Inr (),
              (case callback of None \<Rightarrow> []
               | Some f \<Rightarrow>
                   [if includesStr message ''Only one account is available''
                    then OnlyOneAccountAvailable
                    else if includesStr message ''Fallback failed reason''
                    then SwitchAndFallbackFailed
                    else if includesStr message ''Switching to account''
                    then AutomaticSwitchFailed (currentAuthIndex t)
                    else UnknownSwitchingError message]),
              (if includesStr message ''Only one account is available''
               then t\<lparr>failureCount := 0\<rparr> else t))"
    by (simp only: catchBlock_quiet[OF quiet])
qed

theorem failure_report_never_raises_witness:
  "handleRequestFailureAndSwitch (scriptedOps [1, 2, 3]) \<lparr>status = 500\<rparr> (Some (\<lambda>n. None))
      (exampleSwitcher [1, 2, 3] 1 False)
     = (Inr (),
        [UnknownSwitchingError
           ''All 3 available accounts failed to initialize (including final retry).''],
        (exampleSwitcher [1, 2, 3] 0 False)
          \<lparr>failureCount := 3,
            attempts := [switchAttempt True False 2, switchAttempt True False 3,
                         switchAttempt True False 1]\<rparr>)
   \<and> handleRequestFailureAndSwitch (scriptedOps [1, 2, 3]) \<lparr>status = 500\<rparr> None
      (exampleSwitcher [1, 2, 3] 1 False)
     = (Inr (), [],
        (exampleSwitcher [1, 2, 3] 0 False)
          \<lparr>failureCount := 3,
            attempts := [switchAttempt True False 2, switchAttempt True False 3,
                         switchAttempt True False 1]\<rparr>)"
proof -
  let ?ops = "scriptedOps [1, 2, 3]"
  let ?s = "exampleSwitcher [1, 2, 3] 1 False"
  let ?m = "''All 3 available accounts failed to initialize (including final retry).''"
  let ?t = "(exampleSwitcher [1, 2, 3] 0 False)
          \<lparr>failureCount := 3,
            attempts := [switchAttempt True False 2, switchAttempt True False 3,
                         switchAttempt True False 1]\<rparr>"
  have q1: "\<forall>f n. Some (\<lambda>n :: Notification. None :: Thrown option) = Some f \<longrightarrow> f n = None"
    by simp
  have q2: "\<forall>f n. (None :: Callback) = Some f \<longrightarrow> f n = None" by simp
  have trig: "status \<lparr>status = 500\<rparr> \<in> set (immediateSwitchStatusCodes (config ?s))
                 \<or> (failureThreshold (config ?s) > 0
                     \<and> failureCount ?s + 1 \<ge> failureThreshold (config ?s))"
    by (simp add: exampleSwitcher_def)
  have thrown: "switchToNextAuth ?ops (?s\<lparr>failureCount := failureCount ?s + 1\<rparr>) = (Inl ?m, ?t)"
    by (simp add: switchToNextAuth_def multiAccountSwitch_def tryAccounts.simps
        callSwitchAccount_def recordAttempt_def scriptedOps_def exampleSwitcher_def
        currentAuthIndex_def setCurrentAuthIndex_def resetCounters_def switchAttempt_def
        Let_def allAccountsFailedMessage_def digitChar_def showNat.simps)
  have nomatch: "\<not> includesStr ?m ''Only one account is available''"
    "\<not> includesStr ?m ''Fallback failed reason''"
    "\<not> includesStr ?m ''Switching to account''"
    by simp_all
  have hyp: "(status \<lparr>status = 500\<rparr> \<in> set (immediateSwitchStatusCodes (config ?s))
                 \<or> (failureThreshold (config ?s) > 0
                     \<and> failureCount ?s + 1 \<ge> failureThreshold (config ?s)))
             \<and> switchToNextAuth ?ops (?s\<lparr>failureCount := failureCount ?s + 1\<rparr>) = (Inl ?m, ?t)"
    using trig thrown by (rule conjI)
  note c1 = failure_report_never_raises[where ops = ?ops and e = "\<lparr>status = 500\<rparr>"
      and s = ?s and t = ?t and message = ?m, OF q1,
      THEN conjunct2, THEN conjunct2, THEN conjunct2, THEN mp, OF hyp]
  note c2 = failure_report_never_raises[where ops = ?ops and e = "\<lparr>status = 500\<rparr>"
      and s = ?s and t = ?t and message = ?m, OF q2,
      THEN conjunct2, THEN conjunct2, THEN conjunct2, THEN mp, OF hyp]
  have a: "handleRequestFailureAndSwitch ?ops \<lparr>status = 500\<rparr> (Some (\<lambda>n. None)) ?s
      = (Inr (), [UnknownSwitchingError ?m], ?t)"
    using c1 nomatch by simp
  have b: "handleRequestFailureAndSwitch ?ops \<lparr>status = 500\<rparr> None ?s = (Inr (), [], ?t)"
    using c2 nomatch by simp
  from a b show ?thesis by (intro conjI)
qed

theorem failure_report_never_raises_counterexample:
  "handleSwitchOutcome (Some (\<lambda>n. None)) (Inl NoStringMessage, exampleSwitcher [1] 1 False)
     = (Inl TypeError, [], exampleSwitcher [1] 1 False)
   \<and> handleRequestFailureAndSwitch (scriptedOps [1, 2, 3]) \<lparr>status = 500\<rparr>
        (Some (\<lambda>n. Some (Error ''sink closed''))) (exampleSwitcher [1, 2, 3] 1 False)
     = (Inl (CallbackThrew (Error ''sink closed'')),
        [UnknownSwitchingError
           ''All 3 available accounts failed to initialize (including final retry).''],
        (exampleSwitcher [1, 2, 3] 0 False)
          \<lparr>failureCount := 3,
            attempts := [\<lparr>request = SwitchAccount 2, whileBusy = True, resolved = False\<rparr>,
                         \<lparr>request = SwitchAccount 3, whileBusy = True, resolved = False\<rparr>,
                         \<lparr>request = SwitchAccount 1, whileBusy = True, resolved = False\<rparr>]\<rparr>)"
proof -
  have a: "handleSwitchOutcome (Some (\<lambda>n. None)) (Inl NoStringMessage, exampleSwitcher [1] 1 False)
     = (Inl TypeError, [], exampleSwitcher [1] 1 False)"
    by (simp add: handleSwitchOutcome_def catchBlock_def)
  have thrown: "switchToNextAuth (scriptedOps [1, 2, 3])
        ((exampleSwitcher [1, 2, 3] 1 False)\<lparr>failureCount := 3\<rparr>)
      = (Inl ''All 3 available accounts failed to initialize (including final retry).'',
         (exampleSwitcher [1, 2, 3] 0 False)
          \<lparr>failureCount := 3,
            attempts := [\<lparr>request = SwitchAccount 2, whileBusy = True, resolved = False\<rparr>,
                         \<lparr>request = SwitchAccount 3, whileBusy = True, resolved = False\<rparr>,
                         \<lparr>request = SwitchAccount 1, whileBusy = True, resolved = False\<rparr>]\<rparr>)"
    by (simp add: switchToNextAuth_def multiAccountSwitch_def tryAccounts.simps
        callSwitchAccount_def recordAttempt_def scriptedOps_def exampleSwitcher_def
        currentAuthIndex_def setCurrentAuthIndex_def resetCounters_def
        Let_def allAccountsFailedMessage_def digitChar_def showNat.simps)
  have b: "handleRequestFailureAndSwitch (scriptedOps [1, 2, 3]) \<lparr>status = 500\<rparr>
        (Some (\<lambda>n. Some (Error ''sink closed''))) (exampleSwitcher [1, 2, 3] 1 False)
     = (Inl (CallbackThrew (Error ''sink closed'')),
        [UnknownSwitchingError
           ''All 3 available accounts failed to initialize (including final retry).''],
        (exampleSwitcher [1, 2, 3] 0 False)
          \<lparr>failureCount := 3,
            attempts := [\<lparr>request = SwitchAccount 2, whileBusy = True, resolved = False\<rparr>,
                         \<lparr>request = SwitchAccount 3, whileBusy = True, resolved = False\<rparr>,
                         \<lparr>request = SwitchAccount 1, whileBusy = True, resolved = False\<rparr>]\<rparr>)"
  proof -
    have f: "failureCount (exampleSwitcher [1, 2, 3] 1 False) + 1 = 3"
      "(exampleSwitcher [1, 2, 3] 1 False)\<lparr>failureCount := 3\<rparr>
         = (exampleSwitcher [1, 2, 3] 1 False)\<lparr>failureCount := 3\<rparr>"
      by (simp_all add: exampleSwitcher_def)
    have trig: "isThresholdReached (config (exampleSwitcher [1, 2, 3] 1 False)) 3"
      by (simp add: isThresholdReached_def exampleSwitcher_def)
    show ?thesis
      using trig thrown
      by (simp add: handleRequestFailureAndSwitch_def Let_def f(1) thrownBy_def
          handleSwitchOutcome_def catchBlock_def sendErrorCallback_def)
  qed
  from a b show ?thesis by (intro conjI)
qed

text \<open>
  C7. A single candidate whose restart fails: the error of the restart is rethrown as
  it is (line 84), and the failure report resets \<^verbatim>\<open>failureCount\<close> only when the message
  contains \<^verbatim>\<open>Only one account is available\<close> (line 250). With one candidate, a threshold
  of 3, two earlier failures and a restart that fails with another message, the count is
  3 after the report, not 0.
\<close>

theorem single_candidate_failure_keeps_count:
  "availableIndices (authSource (exampleSwitcher [1] 1 False)) = [1]
   \<and> failureThreshold (config (exampleSwitcher [1] 1 False)) = 3
   \<and> failureCount (exampleSwitcher [1] 1 False) = 2
   \<and> handleRequestFailureAndSwitch (scriptedOps [1]) \<lparr>status = 500\<rparr> (Some (\<lambda>n. None))
        (exampleSwitcher [1] 1 False)
     = (Inr (), [UnknownSwitchingError ''activation failed''],
        (exampleSwitcher [1] 1 False)
          \<lparr>failureCount := 3,
            attempts := [\<lparr>request = LaunchOrSwitchContext 1, whileBusy = True,
                          resolved = False\<rparr>]\<rparr>)"
  by (simp add: handleRequestFailureAndSwitch_def handleSwitchOutcome_def thrownBy_def
      catchBlock_def isImmediateSwitch_def isThresholdReached_def sendErrorCallback_def
      switchToNextAuth_def singleAccountRestart_def callLaunchOrSwitchContext_def
      recordAttempt_def scriptedOps_def exampleSwitcher_def Let_def)

lemma switchToNextAuth_outcome:
  assumes run: "switchToNextAuth ops s = (out, s')"
  shows "config s' = config s \<and> authSource s' = authSource s
         \<and> (if \<exists>r. out = Inr r \<and> success r
             then failureCount s' = 0 \<and> usageCount s' = 0
             else failureCount s' = failureCount s \<and> usageCount s' = usageCount s)"
proof -
  let ?av = "availableIndices (authSource s)"
  have "?av = [] \<or> (\<exists>a. ?av = [a]) \<or> length ?av > 1"
    by (cases ?av; cases "tl ?av") auto
  then consider (empty) "?av = []" | (busy) "?av \<noteq> []" "isSystemBusy s"
    | (single) a where "?av = [a]" "\<not> isSystemBusy s"
    | (multi) "length ?av > 1" "\<not> isSystemBusy s"
    by (cases "isSystemBusy s") auto
  then show ?thesis
  proof cases
    case empty
    with run have "out = Inl noSourcesMessage" "s' = s" by (simp_all add: switchToNextAuth_def)
    then show ?thesis by simp
  next
    case busy
    with run have "out = Inr skipResult" "s' = s" by (simp_all add: switchToNextAuth_def)
    then show ?thesis by (simp add: skipResult_def)
  next
    case (single a)
    obtain r bm where l: "launchOrSwitchContext ops a (browserManager s) = (r, bm)"
      by (cases "launchOrSwitchContext ops a (browserManager s)")
    show ?thesis
      using run unfolding switchToNextAuth_single[OF single(2,1)] l
      by (cases r) auto
  next
    case multi
    let ?order = "attemptedAccounts ?av (currentAuthIndex s)"
    from switchToNextAuth_multi_run[OF multi(2,1) run]
    obtain k where k:
      "if k < length ?order
         then out = Inr (switchedResult (?order ! k) (take k ?order)
                           (currentAuthIndex s \<in> set ?av \<and> k = length ?av - 1))
              \<and> failureCount s' = 0 \<and> usageCount s' = 0
         else out = Inl (allAccountsFailedMessage (length ?av))
              \<and> fst (multiAccountSwitch ops ?av (s\<lparr>isSystemBusy := True\<rparr>)) = Inl ?order
              \<and> currentAuthIndex s' = 0
              \<and> failureCount s' = failureCount s \<and> usageCount s' = usageCount s"
      "config s' = config s" "authSource s' = authSource s"
      by blast
    show ?thesis
    proof (cases "k < length ?order")
      case True
      with k(1) have "out = Inr (switchedResult (?order ! k) (take k ?order)
                           (currentAuthIndex s \<in> set ?av \<and> k = length ?av - 1))"
        "failureCount s' = 0" "usageCount s' = 0" by simp_all
      with k(2,3) show ?thesis by (simp add: switchedResult_def)
    next
      case False
      with k(1) have "out = Inl (allAccountsFailedMessage (length ?av))"
        "failureCount s' = failureCount s" "usageCount s' = usageCount s" by simp_all
      with k(2,3) show ?thesis by simp
    qed
  qed
qed

lemma switchToSpecificAuth_outcome:
  assumes run: "switchToSpecificAuth ops t s = (out, s')"
  shows "config s' = config s \<and> authSource s' = authSource s
         \<and> (if \<exists>r. out = Inr r \<and> success r
             then failureCount s' = 0 \<and> usageCount s' = 0
             else failureCount s' = failureCount s \<and> usageCount s' = usageCount s)"
proof -
  consider (busy) "isSystemBusy s"
    | (invalid) "\<not> isSystemBusy s" "t \<notin> set (availableIndices (authSource s))"
    | (member) "\<not> isSystemBusy s" "t \<in> set (availableIndices (authSource s))"
    by auto
  then show ?thesis
  proof cases
    case busy
    with run show ?thesis by (auto simp: switchToSpecificAuth_def skipResult_def)
  next
    case invalid
    with run show ?thesis by (auto simp: switchToSpecificAuth_def)
  next
    case member
    obtain r bm where l: "switchAccount ops t (browserManager s) = (r, bm)"
      by (cases "switchAccount ops t (browserManager s)")
    show ?thesis
      using run unfolding switchToSpecificAuth_member[OF member] l
      by (cases r) auto
  qed
qed

text \<open>
  C9. A switch that returns success, through either entry point and on any of its paths
  (single-account restart, an attempt of the loop, the final attempt, a direct switch),
  leaves both \<^verbatim>\<open>failureCount\<close> and \<^verbatim>\<open>usageCount\<close> at \<open>0\<close>. A switch operation that ends in
  any other way (a skip or invalid-target result, a thrown error) leaves both counters
  as they were, so the two are reset together and only by a successful switch.
\<close>

theorem counters_reset_with_success:
  assumes "switchToNextAuth ops s = (out, s') \<or> switchToSpecificAuth ops targetIndex s = (out, s')"
  shows "if \<exists>r. out = Inr r \<and> success r
         then failureCount s' = 0 \<and> usageCount s' = 0
         else failureCount s' = failureCount s \<and> usageCount s' = usageCount s"
  using assms switchToNextAuth_outcome[of ops s out s']
    switchToSpecificAuth_outcome[of ops targetIndex s out s']
  by (elim disjE) simp_all

theorem counters_reset_with_success_witness:
  "switchToNextAuth (scriptedOps []) (exampleSwitcher [5] 5 False)
     = (Inr \<lparr>success = True, newIndex = Some 5, failedAccounts = None, finalAttempt = None,
             reason = None\<rparr>,
        (exampleSwitcher [5] 5 False)
          \<lparr>failureCount := 0, usageCount := 0,
            attempts := [\<lparr>request = LaunchOrSwitchContext 5, whileBusy = True,
                          resolved = True\<rparr>]\<rparr>)
   \<and> switchToNextAuth (scriptedOps [2, 3]) (exampleSwitcher [1, 2, 3] 1 False)
     = (Inr \<lparr>success = True, newIndex = Some 1, failedAccounts = Some [2, 3],
             finalAttempt = Some True, reason = None\<rparr>,
        (exampleSwitcher [1, 2, 3] 1 False)
          \<lparr>failureCount := 0, usageCount := 0,
            attempts := [switchAttempt True False 2, switchAttempt True False 3,
                         switchAttempt True True 1]\<rparr>)
   \<and> switchToSpecificAuth (scriptedOps []) 2 (exampleSwitcher [1, 2, 3] 1 False)
     = (Inr \<lparr>success = True, newIndex = Some 2, failedAccounts = None, finalAttempt = None,
             reason = None\<rparr>,
        (exampleSwitcher [1, 2, 3] 2 False)
          \<lparr>failureCount := 0, usageCount := 0, attempts := [switchAttempt True True 2]\<rparr>)
   \<and> switchToSpecificAuth (scriptedOps [2]) 2 (exampleSwitcher [1, 2, 3] 1 False)
     = (Inl ''activation failed'',
        (exampleSwitcher [1, 2, 3] 1 False)\<lparr>attempts := [switchAttempt True False 2]\<rparr>)
   \<and> failureCount (exampleSwitcher [1, 2, 3] 1 False) = 2
   \<and> usageCount (exampleSwitcher [1, 2, 3] 1 False) = 7
   \<and> failureCount ((exampleSwitcher [1, 2, 3] 1 False)
        \<lparr>attempts := [switchAttempt True False 2]\<rparr>) = 2
   \<and> usageCount ((exampleSwitcher [1, 2, 3] 1 False)
        \<lparr>attempts := [switchAttempt True False 2]\<rparr>) = 7"
proof -
  have a: "switchToNextAuth (scriptedOps []) (exampleSwitcher [5] 5 False)
     = (Inr \<lparr>success = True, newIndex = Some 5, failedAccounts = None, finalAttempt = None,
             reason = None\<rparr>,
        (exampleSwitcher [5] 5 False)
          \<lparr>failureCount := 0, usageCount := 0,
            attempts := [\<lparr>request = LaunchOrSwitchContext 5, whileBusy = True,
                          resolved = True\<rparr>]\<rparr>)"
    by (simp add: switchToNextAuth_def singleAccountRestart_def callLaunchOrSwitchContext_def
        recordAttempt_def scriptedOps_def exampleSwitcher_def resetCounters_def)
  have b: "switchToNextAuth (scriptedOps [2, 3]) (exampleSwitcher [1, 2, 3] 1 False)
     = (Inr \<lparr>success = True, newIndex = Some 1, failedAccounts = Some [2, 3],
             finalAttempt = Some True, reason = None\<rparr>,
        (exampleSwitcher [1, 2, 3] 1 False)
          \<lparr>failureCount := 0, usageCount := 0,
            attempts := [switchAttempt True False 2, switchAttempt True False 3,
                         switchAttempt True True 1]\<rparr>)"
    by (simp add: switchToNextAuth_def multiAccountSwitch_def tryAccounts.simps
        callSwitchAccount_def recordAttempt_def scriptedOps_def exampleSwitcher_def
        currentAuthIndex_def resetCounters_def switchAttempt_def Let_def)
  have c: "switchToSpecificAuth (scriptedOps []) 2 (exampleSwitcher [1, 2, 3] 1 False)
     = (Inr \<lparr>success = True, newIndex = Some 2, failedAccounts = None, finalAttempt = None,
             reason = None\<rparr>,
        (exampleSwitcher [1, 2, 3] 2 False)
          \<lparr>failureCount := 0, usageCount := 0, attempts := [switchAttempt True True 2]\<rparr>)"
    by (simp add: switchToSpecificAuth_def callSwitchAccount_def recordAttempt_def
        scriptedOps_def exampleSwitcher_def resetCounters_def switchAttempt_def)
  have d: "switchToSpecificAuth (scriptedOps [2]) 2 (exampleSwitcher [1, 2, 3] 1 False)
     = (Inl ''activation failed'',
        (exampleSwitcher [1, 2, 3] 1 False)\<lparr>attempts := [switchAttempt True False 2]\<rparr>)"
    by (simp add: switchToSpecificAuth_def callSwitchAccount_def recordAttempt_def
        scriptedOps_def exampleSwitcher_def resetCounters_def switchAttempt_def)
  have e: "failureCount (exampleSwitcher [1, 2, 3] 1 False) = 2"
    "usageCount (exampleSwitcher [1, 2, 3] 1 False) = 7"
    by (simp_all add: exampleSwitcher_def)
  from counters_reset_with_success[OF disjI1, OF a]
       counters_reset_with_success[OF disjI1, OF b]
       counters_reset_with_success[OF disjI2, OF c]
       counters_reset_with_success[OF disjI2, OF d]
       a b c d e
  show ?thesis by simp
qed

lemma catchBlock_notifies: "fst (snd (catchBlock (Some f) (Error message) t)) \<noteq> []"
  by (simp add: catchBlock_def sendErrorCallback_def split: option.splits)

lemma handleSwitchOutcome_notifies:
  "fst (snd (handleSwitchOutcome (Some f) (thrownBy out))) \<noteq> []"
proof -
  obtain r t where o: "out = (r, t)" by (cases out)
  show ?thesis
  proof (cases r)
    case (Inl m)
    then show ?thesis
      unfolding o by (simp add: handleSwitchOutcome_def thrownBy_def catchBlock_notifies)
  next
    case (Inr res)
    then show ?thesis
      unfolding o
      by (simp add: handleSwitchOutcome_def thrownBy_def sendErrorCallback_def
          split: option.splits prod.splits)
  qed
qed

lemma reportFailures_no_trigger:
  assumes "failureThreshold (config s) \<le> 0"
      and "\<forall>e\<in>set es. status e \<notin> set (immediateSwitchStatusCodes (config s))"
  shows "reportFailures ops es cb s = ([], s\<lparr>failureCount := failureCount s + int (length es)\<rparr>)"
  using assms
proof (induction es arbitrary: s)
  case Nil
  then show ?case by (simp add: reportFailures.simps)
next
  case (Cons e es)
  let ?s1 = "s\<lparr>failureCount := failureCount s + 1\<rparr>"
  have h: "handleRequestFailureAndSwitch ops e cb s = (Inr (), [], ?s1)"
    using Cons.prems
    by (simp add: handleRequestFailureAndSwitch_def isImmediateSwitch_def isThresholdReached_def)
  have "reportFailures ops es cb ?s1
          = ([], ?s1\<lparr>failureCount := failureCount ?s1 + int (length es)\<rparr>)"
    using Cons.prems by (intro Cons.IH) simp_all
  then show ?case using h by (simp add: reportFailures.simps add.assoc add.commute)
qed

text \<open>
  C4. A failure report first adds exactly 1 to \<^verbatim>\<open>failureCount\<close>. With the count so
  increased, it hands over to the switch orchestration exactly when the reported status
  is one of the immediate-switch codes, or the threshold is positive and the count has
  reached it: in that case its outcome is what lines 237 to 261 make of the
  orchestration run from the state with the increased count, and otherwise the state
  with the increased count is returned with no browser-manager call and no message. A
  report made with a callback sends a message exactly when it handed over. With a
  threshold of 0 and no immediate-switch status among them, any number of reports only
  adds their number to \<^verbatim>\<open>failureCount\<close>.
\<close>

theorem failure_policy:
  "handleRequestFailureAndSwitch ops e callback s
     = (if status e \<in> set (immediateSwitchStatusCodes (config s))
           \<or> (failureThreshold (config s) > 0
               \<and> failureCount s + 1 \<ge> failureThreshold (config s))
        then handleSwitchOutcome callback
               (thrownBy (switchToNextAuth ops (s\<lparr>failureCount := failureCount s + 1\<rparr>)))
        else (Inr (), [], s\<lparr>failureCount := failureCount s + 1\<rparr>))
   \<and> (fst (snd (handleRequestFailureAndSwitch ops e (Some f) s)) \<noteq> [])
       = (status e \<in> set (immediateSwitchStatusCodes (config s))
           \<or> (failureThreshold (config s) > 0
               \<and> failureCount s + 1 \<ge> failureThreshold (config s)))
   \<and> (failureThreshold (config s) = 0
        \<and> (\<forall>e\<in>set es. status e \<notin> set (immediateSwitchStatusCodes (config s)))
        \<longrightarrow> reportFailures ops es callback s
              = ([], s\<lparr>failureCount := failureCount s + int (length es)\<rparr>))"
proof (intro conjI impI)
  show "handleRequestFailureAndSwitch ops e callback s
     = (if status e \<in> set (immediateSwitchStatusCodes (config s))
           \<or> (failureThreshold (config s) > 0
               \<and> failureCount s + 1 \<ge> failureThreshold (config s))
        then handleSwitchOutcome callback
               (thrownBy (switchToNextAuth ops (s\<lparr>failureCount := failureCount s + 1\<rparr>)))
        else (Inr (), [], s\<lparr>failureCount := failureCount s + 1\<rparr>))"
    by (simp add: handleRequestFailureAndSwitch_def isImmediateSwitch_def
        isThresholdReached_def Let_def)
  show "(fst (snd (handleRequestFailureAndSwitch ops e (Some f) s)) \<noteq> [])
       = (status e \<in> set (immediateSwitchStatusCodes (config s))
           \<or> (failureThreshold (config s) > 0
               \<and> failureCount s + 1 \<ge> failureThreshold (config s)))"
    by (simp add: handleRequestFailureAndSwitch_def isImmediateSwitch_def
        isThresholdReached_def Let_def handleSwitchOutcome_notifies)
next
  assume "failureThreshold (config s) = 0
        \<and> (\<forall>e\<in>set es. status e \<notin> set (immediateSwitchStatusCodes (config s)))"
  then show "reportFailures ops es callback s
              = ([], s\<lparr>failureCount := failureCount s + int (length es)\<rparr>)"
    by (intro reportFailures_no_trigger) simp_all
qed

theorem failure_policy_witness:
  "handleRequestFailureAndSwitch (scriptedOps [2]) \<lparr>status = 500\<rparr> (Some (\<lambda>n. None))
      ((exampleSwitcher [1, 2, 3] 1 False)\<lparr>failureCount := 0\<rparr>)
     = (Inr (), [], (exampleSwitcher [1, 2, 3] 1 False)\<lparr>failureCount := 1\<rparr>)
   \<and> handleRequestFailureAndSwitch (scriptedOps [2]) \<lparr>status = 500\<rparr> (Some (\<lambda>n. None))
      (exampleSwitcher [1, 2, 3] 1 False)
     = (Inr (), [FellBackTo 3],
        (exampleSwitcher [1, 2, 3] 3 False)
          \<lparr>failureCount := 0, usageCount := 0,
            attempts := [switchAttempt True False 2, switchAttempt True True 3]\<rparr>)
   \<and> handleRequestFailureAndSwitch (scriptedOps [2]) \<lparr>status = 429\<rparr> (Some (\<lambda>n. None))
      ((exampleSwitcher [1, 2, 3] 1 False)\<lparr>failureCount := 0\<rparr>)
     = (Inr (), [FellBackTo 3],
        (exampleSwitcher [1, 2, 3] 3 False)
          \<lparr>failureCount := 0, usageCount := 0,
            attempts := [switchAttempt True False 2, switchAttempt True True 3]\<rparr>)
   \<and> reportFailures (scriptedOps [2]) [\<lparr>status = 500\<rparr>, \<lparr>status = 502\<rparr>, \<lparr>status = 500\<rparr>] (Some (\<lambda>n. None))
      ((exampleSwitcher [1, 2, 3] 1 False)
         \<lparr>config := \<lparr>failureThreshold = 0, immediateSwitchStatusCodes = [429, 503],
                      switchOnUses = 0\<rparr>\<rparr>)
     = ([], (exampleSwitcher [1, 2, 3] 1 False)
         \<lparr>config := \<lparr>failureThreshold = 0, immediateSwitchStatusCodes = [429, 503],
                      switchOnUses = 0\<rparr>,
           failureCount := 5\<rparr>)"
proof -
  have run: "switchToNextAuth (scriptedOps [2]) ((exampleSwitcher [1, 2, 3] 1 False)\<lparr>failureCount := k\<rparr>)
     = (Inr \<lparr>success = True, newIndex = Some 3, failedAccounts = Some [2],
              finalAttempt = None, reason = None\<rparr>,
        (exampleSwitcher [1, 2, 3] 3 False)
          \<lparr>failureCount := 0, usageCount := 0,
            attempts := [switchAttempt True False 2, switchAttempt True True 3]\<rparr>)" for k
    by (simp add: switchToNextAuth_def multiAccountSwitch_def tryAccounts.simps
        callSwitchAccount_def recordAttempt_def scriptedOps_def exampleSwitcher_def
        currentAuthIndex_def resetCounters_def switchAttempt_def Let_def)
  have out: "handleSwitchOutcome (Some (\<lambda>n. None))
        (thrownBy (Inr \<lparr>success = True, newIndex = Some 3, failedAccounts = Some [2],
              finalAttempt = None, reason = None\<rparr>,
        (exampleSwitcher [1, 2, 3] 3 False)
          \<lparr>failureCount := 0, usageCount := 0,
            attempts := [switchAttempt True False 2, switchAttempt True True 3]\<rparr>))
     = (Inr (), [FellBackTo 3],
        (exampleSwitcher [1, 2, 3] 3 False)
          \<lparr>failureCount := 0, usageCount := 0,
            attempts := [switchAttempt True False 2, switchAttempt True True 3]\<rparr>)"
    by (simp add: handleSwitchOutcome_def thrownBy_def sendErrorCallback_def
        currentAuthIndex_def exampleSwitcher_def)
  have a: "handleRequestFailureAndSwitch (scriptedOps [2]) \<lparr>status = 500\<rparr> (Some (\<lambda>n. None))
      ((exampleSwitcher [1, 2, 3] 1 False)\<lparr>failureCount := 0\<rparr>)
     = (Inr (), [], (exampleSwitcher [1, 2, 3] 1 False)\<lparr>failureCount := 1\<rparr>)"
    using failure_policy[where ops = "scriptedOps [2]" and e = "\<lparr>status = 500\<rparr>"
        and callback = "Some (\<lambda>n. None)"
        and s = "(exampleSwitcher [1, 2, 3] 1 False)\<lparr>failureCount := 0\<rparr>" and es = "[]"]
    by (simp add: exampleSwitcher_def)
  have b: "handleRequestFailureAndSwitch (scriptedOps [2]) \<lparr>status = 500\<rparr> (Some (\<lambda>n. None))
      (exampleSwitcher [1, 2, 3] 1 False)
     = handleSwitchOutcome (Some (\<lambda>n. None)) (thrownBy (switchToNextAuth (scriptedOps [2])
         ((exampleSwitcher [1, 2, 3] 1 False)\<lparr>failureCount := 3\<rparr>)))"
    using failure_policy[where ops = "scriptedOps [2]" and e = "\<lparr>status = 500\<rparr>"
        and callback = "Some (\<lambda>n. None)"
        and s = "exampleSwitcher [1, 2, 3] 1 False" and es = "[]"]
    by (simp add: exampleSwitcher_def)
  have c: "handleRequestFailureAndSwitch (scriptedOps [2]) \<lparr>status = 429\<rparr> (Some (\<lambda>n. None))
      ((exampleSwitcher [1, 2, 3] 1 False)\<lparr>failureCount := 0\<rparr>)
     = handleSwitchOutcome (Some (\<lambda>n. None)) (thrownBy (switchToNextAuth (scriptedOps [2])
         ((exampleSwitcher [1, 2, 3] 1 False)\<lparr>failureCount := 1\<rparr>)))"
    using failure_policy[where ops = "scriptedOps [2]" and e = "\<lparr>status = 429\<rparr>"
        and callback = "Some (\<lambda>n. None)"
        and s = "(exampleSwitcher [1, 2, 3] 1 False)\<lparr>failureCount := 0\<rparr>" and es = "[]"]
    by (simp add: exampleSwitcher_def)
  have d: "reportFailures (scriptedOps [2]) [\<lparr>status = 500\<rparr>, \<lparr>status = 502\<rparr>, \<lparr>status = 500\<rparr>] (Some (\<lambda>n. None))
      ((exampleSwitcher [1, 2, 3] 1 False)
         \<lparr>config := \<lparr>failureThreshold = 0, immediateSwitchStatusCodes = [429, 503],
                      switchOnUses = 0\<rparr>\<rparr>)
     = ([], (exampleSwitcher [1, 2, 3] 1 False)
         \<lparr>config := \<lparr>failureThreshold = 0, immediateSwitchStatusCodes = [429, 503],
                      switchOnUses = 0\<rparr>,
           failureCount := 5\<rparr>)"
  proof -
    let ?s = "(exampleSwitcher [1, 2, 3] 1 False)
         \<lparr>config := \<lparr>failureThreshold = 0, immediateSwitchStatusCodes = [429, 503],
                      switchOnUses = 0\<rparr>\<rparr>"
    let ?es = "[\<lparr>status = 500\<rparr>, \<lparr>status = 502\<rparr>, \<lparr>status = 500\<rparr>]"
    have h: "failureThreshold (config ?s) = 0
        \<and> (\<forall>e\<in>set ?es. status e \<notin> set (immediateSwitchStatusCodes (config ?s)))"
      by (simp add: exampleSwitcher_def)
    from failure_policy[where ops = "scriptedOps [2]" and e = "\<lparr>status = 500\<rparr>"
        and callback = "Some (\<lambda>n. None)" and s = ?s and es = ?es,
        THEN conjunct2, THEN conjunct2, THEN mp, OF h]
    have "reportFailures (scriptedOps [2]) ?es (Some (\<lambda>n. None)) ?s
            = ([], ?s\<lparr>failureCount := failureCount ?s + int (length ?es)\<rparr>)" .
    moreover have "?s\<lparr>failureCount := failureCount ?s + int (length ?es)\<rparr>
        = (exampleSwitcher [1, 2, 3] 1 False)
         \<lparr>config := \<lparr>failureThreshold = 0, immediateSwitchStatusCodes = [429, 503],
                      switchOnUses = 0\<rparr>,
           failureCount := 5\<rparr>"
      by (simp add: exampleSwitcher_def)
    ultimately show ?thesis by (simp only:)
  qed
  from a b c d show ?thesis unfolding run out by blast
qed

lemma includesStr_first_char: "includesStr s (c # cs) \<Longrightarrow> c \<in> set s"
  by (induction s) auto

lemma showNat_digits: "set (showNat n) \<subseteq> set ''0123456789''"
proof (induction n rule: showNat.induct)
  case (1 n)
  have d: "digitChar k \<in> set ''0123456789''" if "k < 10" for k
    unfolding digitChar_def using that by (intro nth_mem) simp
  show ?case
  proof (cases "n < 10")
    case True
    then show ?thesis using d[of n] by (subst showNat.simps) simp
  next
    case False
    have "n mod 10 < 10" by simp
    from d[OF this] "1.IH"[OF False] False show ?thesis
      by (subst showNat.simps) simp
  qed
qed

lemma own_messages_do_not_match:
  "\<not> includesStr (allAccountsFailedMessage n) ''Only one account is available''
   \<and> \<not> includesStr noSourcesMessage ''Only one account is available''"
proof -
  have "CHR ''O'' \<notin> set (showNat n)" using showNat_digits[of n] by auto
  then have "CHR ''O'' \<notin> set (allAccountsFailedMessage n)"
    by (simp add: allAccountsFailedMessage_def)
  moreover have "CHR ''O'' \<notin> set noSourcesMessage" by (simp add: noSourcesMessage_def)
  ultimately show ?thesis using includesStr_first_char by blast
qed

text \<open>
  C10. When a failure report hands over to the orchestration and the orchestration
  throws an error whose message does not contain \<^verbatim>\<open>Only one account is available\<close>, the
  report ends with \<^verbatim>\<open>failureCount\<close> at its increased value; the two errors the
  orchestration creates itself never contain that text. Consequently, once the threshold
  is positive and reached, the state after such a failed switch makes the next report,
  whatever its status, hand over to the orchestration again.
\<close>

theorem failed_switch_keeps_count:
  assumes trig: "status e \<in> set (immediateSwitchStatusCodes (config s))
                 \<or> (failureThreshold (config s) > 0
                     \<and> failureCount s + 1 \<ge> failureThreshold (config s))"
      and thrown: "switchToNextAuth ops (s\<lparr>failureCount := failureCount s + 1\<rparr>)
                     = (Inl message, s1)"
      and nomatch: "\<not> includesStr message ''Only one account is available''"
      and res: "handleRequestFailureAndSwitch ops e callback s = (r, ns, s')"
  shows "failureCount s' = failureCount s + 1
         \<and> \<not> includesStr (allAccountsFailedMessage n) ''Only one account is available''
         \<and> \<not> includesStr noSourcesMessage ''Only one account is available''
         \<and> (failureThreshold (config s) > 0
              \<and> failureCount s + 1 \<ge> failureThreshold (config s)
            \<longrightarrow> handleRequestFailureAndSwitch ops2 e2 callback2 s'
                  = handleSwitchOutcome callback2
                      (thrownBy (switchToNextAuth ops2
                                   (s'\<lparr>failureCount := failureCount s' + 1\<rparr>))))"
proof -
  let ?s0 = "s\<lparr>failureCount := failureCount s + 1\<rparr>"
  from switchToNextAuth_outcome[OF thrown]
  have fr: "config s1 = config s" "failureCount s1 = failureCount s + 1" by simp_all
  have h: "handleRequestFailureAndSwitch ops e callback s
             = catchBlock callback (Error message) s1"
    using trig thrown
    by (simp add: handleRequestFailureAndSwitch_def isImmediateSwitch_def
        isThresholdReached_def Let_def thrownBy_def handleSwitchOutcome_def)
  have "failureCount (snd (snd (catchBlock callback (Error message) s1)))
          = failureCount s1
        \<and> config (snd (snd (catchBlock callback (Error message) s1)))
          = config s1"
    using nomatch by (simp add: catchBlock_def split: prod.splits option.splits)
  with h res fr have s': "failureCount s' = failureCount s + 1" "config s' = config s"
    by (metis snd_conv)+
  have again: "handleRequestFailureAndSwitch ops2 e2 callback2 s'
                  = handleSwitchOutcome callback2
                      (thrownBy (switchToNextAuth ops2
                                   (s'\<lparr>failureCount := failureCount s' + 1\<rparr>)))"
    if "failureThreshold (config s) > 0 \<and> failureCount s + 1 \<ge> failureThreshold (config s)"
    using that s'
    by (simp add: handleRequestFailureAndSwitch_def isImmediateSwitch_def
        isThresholdReached_def Let_def)
  from s'(1) own_messages_do_not_match[of n] again show ?thesis by blast
qed

theorem failed_switch_keeps_count_witness:
  "handleRequestFailureAndSwitch (scriptedOps [1, 2, 3]) \<lparr>status = 500\<rparr> (Some (\<lambda>n. None))
      (exampleSwitcher [1, 2, 3] 1 False)
     = (Inr (),
        [UnknownSwitchingError
           ''All 3 available accounts failed to initialize (including final retry).''],
        (exampleSwitcher [1, 2, 3] 0 False)
          \<lparr>failureCount := 3,
            attempts := [switchAttempt True False 2, switchAttempt True False 3,
                         switchAttempt True False 1]\<rparr>)
   \<and> failureCount ((exampleSwitcher [1, 2, 3] 0 False)
          \<lparr>failureCount := 3,
            attempts := [switchAttempt True False 2, switchAttempt True False 3,
                         switchAttempt True False 1]\<rparr>)
       = failureCount (exampleSwitcher [1, 2, 3] 1 False) + 1
   \<and> handleRequestFailureAndSwitch (scriptedOps [1, 2, 3]) \<lparr>status = 500\<rparr> (Some (\<lambda>n. None))
        ((exampleSwitcher [1, 2, 3] 0 False)
          \<lparr>failureCount := 3,
            attempts := [switchAttempt True False 2, switchAttempt True False 3,
                         switchAttempt True False 1]\<rparr>)
     = (Inr (),
        [UnknownSwitchingError
           ''All 3 available accounts failed to initialize (including final retry).''],
        (exampleSwitcher [1, 2, 3] 0 False)
          \<lparr>failureCount := 4,
            attempts := [switchAttempt True False 2, switchAttempt True False 3,
                         switchAttempt True False 1, switchAttempt True False 1,
                         switchAttempt True False 2, switchAttempt True False 3]\<rparr>)"
proof -
  let ?ops = "scriptedOps [1, 2, 3]"
  let ?s = "exampleSwitcher [1, 2, 3] 1 False"
  let ?m = "''All 3 available accounts failed to initialize (including final retry).''"
  let ?s1 = "(exampleSwitcher [1, 2, 3] 0 False)
          \<lparr>failureCount := 3,
            attempts := [switchAttempt True False 2, switchAttempt True False 3,
                         switchAttempt True False 1]\<rparr>"
  let ?s2 = "(exampleSwitcher [1, 2, 3] 0 False)
          \<lparr>failureCount := 4,
            attempts := [switchAttempt True False 2, switchAttempt True False 3,
                         switchAttempt True False 1, switchAttempt True False 1,
                         switchAttempt True False 2, switchAttempt True False 3]\<rparr>"
  have trig: "status \<lparr>status = 500\<rparr> \<in> set (immediateSwitchStatusCodes (config ?s))
                 \<or> (failureThreshold (config ?s) > 0
                     \<and> failureCount ?s + 1 \<ge> failureThreshold (config ?s))"
    by (simp add: exampleSwitcher_def)
  have thrown: "switchToNextAuth ?ops (?s\<lparr>failureCount := failureCount ?s + 1\<rparr>) = (Inl ?m, ?s1)"
    by (simp add: switchToNextAuth_def multiAccountSwitch_def tryAccounts.simps
        callSwitchAccount_def recordAttempt_def scriptedOps_def exampleSwitcher_def
        currentAuthIndex_def setCurrentAuthIndex_def resetCounters_def switchAttempt_def
        Let_def allAccountsFailedMessage_def digitChar_def showNat.simps)
  have nomatch: "\<not> includesStr ?m ''Only one account is available''"
    using own_messages_do_not_match[of 3]
    by (simp add: allAccountsFailedMessage_def digitChar_def showNat.simps)
  have out: "handleSwitchOutcome (Some (\<lambda>n. None)) (thrownBy (Inl ?m, t))
      = (Inr (), [UnknownSwitchingError ?m], t)"
    for t :: "unit AuthSwitcher"
    by (simp add: handleSwitchOutcome_def thrownBy_def catchBlock_def sendErrorCallback_def)
  have res: "handleRequestFailureAndSwitch ?ops \<lparr>status = 500\<rparr> (Some (\<lambda>n. None)) ?s
      = (Inr (), [UnknownSwitchingError ?m], ?s1)"
    using trig thrown out[of ?s1]
    by (simp add: handleRequestFailureAndSwitch_def isImmediateSwitch_def
        isThresholdReached_def Let_def)
  have thr: "failureThreshold (config ?s) > 0
              \<and> failureCount ?s + 1 \<ge> failureThreshold (config ?s)"
    by (simp add: exampleSwitcher_def)
  have again: "switchToNextAuth ?ops (?s1\<lparr>failureCount := failureCount ?s1 + 1\<rparr>) = (Inl ?m, ?s2)"
    by (simp add: switchToNextAuth_def multiAccountSwitch_def tryAccounts.simps
        callSwitchAccount_def recordAttempt_def scriptedOps_def exampleSwitcher_def
        currentAuthIndex_def setCurrentAuthIndex_def resetCounters_def switchAttempt_def
        Let_def allAccountsFailedMessage_def digitChar_def showNat.simps)
  note c = failed_switch_keeps_count[OF trig thrown nomatch res,
      of 3 ?ops "\<lparr>status = 500\<rparr>" "Some (\<lambda>n. None)"]
  from c have c1: "failureCount ?s1 = failureCount ?s + 1" by (rule conjunct1)
  from c thr have "handleRequestFailureAndSwitch ?ops \<lparr>status = 500\<rparr> (Some (\<lambda>n. None)) ?s1
      = handleSwitchOutcome (Some (\<lambda>n. None))
          (thrownBy (switchToNextAuth ?ops (?s1\<lparr>failureCount := failureCount ?s1 + 1\<rparr>)))"
    by blast
  then have c2: "handleRequestFailureAndSwitch ?ops \<lparr>status = 500\<rparr> (Some (\<lambda>n. None)) ?s1
      = (Inr (), [UnknownSwitchingError ?m], ?s2)"
    unfolding again out .
  from res c1 c2 show ?thesis by (intro conjI)
qed

end
